theory Spec2Isabelle
  imports Complex_Main "HOL-Library.Log_Nat"
begin

section \<open>JavaScript numbers\<close>

text \<open>
  Amounts, budgets and totals of \<^verbatim>\<open>index.js\<close> are JavaScript numbers: IEEE 754 binary64
  values. A number is \<open>NaN\<close>, one of the two infinities, or a finite value, kept here as
  the rational it denotes. The two zeros are identified: the program only adds, compares
  and prints amounts, and none of these tells \<open>-0\<close> from \<open>0\<close>.
\<close>

datatype jsnum = NaN | PInf | NInf | Fin rat

text \<open>\<open>floorlog2 x\<close> is the binary exponent of a positive rational: the integer \<open>e\<close> with
  \<open>2 powi e \<le> x < 2 powi (e + 1)\<close>.\<close>

definition floorlog2 :: "rat \<Rightarrow> int" where
  "floorlog2 x = (case quotient_of x of (p, q) \<Rightarrow>
     (let d = bitlen p - bitlen q in if 2 powi d \<le> x then d else d - 1))"

definition roundTiesToEven :: "rat \<Rightarrow> int" where
  "roundTiesToEven q = (let f = \<lfloor>q\<rfloor>; r = q - of_int f in
     if r < 1 / 2 then f else if 1 / 2 < r then f + 1 else if even f then f else f + 1)"

text \<open>
  \<open>rnd x\<close> is the binary64 value of the exact result \<open>x\<close> of an operation, in the default
  rounding mode (to nearest, ties to even): a 53-bit significand, exponents from \<open>-1022\<close>
  (below it the spacing of the subnormal numbers, \<open>2 powi - 1074\<close>, stays), and an infinity
  once the rounded magnitude reaches \<open>2 powi 1024\<close>.
\<close>

definition rnd :: "rat \<Rightarrow> jsnum" where
  "rnd x = (if x = 0 then Fin 0 else
     (let e = max (floorlog2 \<bar>x\<bar>) (- 1022);
          u = 2 powi (e - 52);
          y = of_int (roundTiesToEven (x / u)) * u
      in if 2 powi 1024 \<le> \<bar>y\<bar> then (if 0 < x then PInf else NInf) else Fin y))"

text \<open>The operator \<^verbatim>\<open>+\<close> on two numbers.\<close>

fun plus_js :: "jsnum \<Rightarrow> jsnum \<Rightarrow> jsnum" where
  "plus_js (Fin a) (Fin b) = rnd (a + b)"
| "plus_js NaN _ = NaN"
| "plus_js _ NaN = NaN"
| "plus_js PInf NInf = NaN"
| "plus_js NInf PInf = NaN"
| "plus_js PInf _ = PInf"
| "plus_js _ PInf = PInf"
| "plus_js NInf _ = NInf"
| "plus_js _ NInf = NInf"

fun isNaN :: "jsnum \<Rightarrow> bool" where
  "isNaN NaN = True"
| "isNaN _ = False"

text \<open>The comparisons \<^verbatim>\<open><\<close>, \<^verbatim>\<open><=\<close> and \<^verbatim>\<open>>\<close>: each is false as soon as one side is \<open>NaN\<close>.\<close>

fun lt_js :: "jsnum \<Rightarrow> jsnum \<Rightarrow> bool" where
  "lt_js (Fin a) (Fin b) = (a < b)"
| "lt_js NaN _ = False"
| "lt_js _ NaN = False"
| "lt_js _ NInf = False"
| "lt_js PInf _ = False"
| "lt_js NInf _ = True"
| "lt_js _ PInf = True"

definition le_js :: "jsnum \<Rightarrow> jsnum \<Rightarrow> bool" where
  "le_js a b = (\<not> isNaN a \<and> \<not> isNaN b \<and> \<not> lt_js b a)"

definition gt_js :: "jsnum \<Rightarrow> jsnum \<Rightarrow> bool" where
  "gt_js a b = lt_js b a"

section \<open>Texts read as numbers\<close>

text \<open>
  The options of the command line are texts. A \<open>string\<close> is a list of characters, taken as
  the code points below 256. Decimal digits are read exactly: \<open>readDigits\<close> reads a text
  made of digits only, and \<open>readNat\<close> one that is not empty.
\<close>

definition digitValue :: "char \<Rightarrow> nat option" where
  "digitValue c = (let n = (of_char c :: nat) in if 48 \<le> n \<and> n \<le> 57 then Some (n - 48) else None)"

fun readDigits :: "nat \<Rightarrow> string \<Rightarrow> nat option" where
  "readDigits acc [] = Some acc"
| "readDigits acc (c # cs) =
     (case digitValue c of None \<Rightarrow> None | Some d \<Rightarrow> readDigits (10 * acc + d) cs)"

definition readNat :: "string \<Rightarrow> nat option" where
  "readNat s = (if s = [] then None else readDigits 0 s)"

definition isDigit :: "char \<Rightarrow> bool" where
  "isDigit c = (digitValue c \<noteq> None)"

text \<open>The white space that JavaScript strips from a text before reading a number in it:
  tab, line feed, vertical tab, form feed, carriage return, space and no-break space.\<close>

definition isWhiteSpace :: "char \<Rightarrow> bool" where
  "isWhiteSpace c = ((of_char c :: nat) \<in> set [9, 10, 11, 12, 13, 32, 160])"

definition trim :: "string \<Rightarrow> string" where
  "trim s = rev (dropWhile isWhiteSpace (rev (dropWhile isWhiteSpace s)))"

text \<open>A digit of a radix up to 36: \<^verbatim>\<open>0\<close> to \<^verbatim>\<open>9\<close>, then the letters, small or capital.\<close>

definition radixDigit :: "nat \<Rightarrow> char \<Rightarrow> nat option" where
  "radixDigit R c =
     (let n = (of_char c :: nat);
          v = (if 48 \<le> n \<and> n \<le> 57 then Some (n - 48)
               else if 97 \<le> n \<and> n \<le> 122 then Some (n - 87)
               else if 65 \<le> n \<and> n \<le> 90 then Some (n - 55)
               else None)
      in case v of None \<Rightarrow> None | Some d \<Rightarrow> if d < R then Some d else None)"

fun readRadix :: "nat \<Rightarrow> nat \<Rightarrow> string \<Rightarrow> nat option" where
  "readRadix R acc [] = Some acc"
| "readRadix R acc (c # cs) =
     (case radixDigit R c of None \<Rightarrow> None | Some d \<Rightarrow> readRadix R (R * acc + d) cs)"

text \<open>
  The unsigned decimal literals of the conversion of a text to a number, but \<^verbatim>\<open>Infinity\<close>:
  digits, then optionally a point and digits (one of the two runs of digits may be empty,
  not both), then optionally an exponent part, \<^verbatim>\<open>e\<close> or \<^verbatim>\<open>E\<close> with a signed run of digits.
  The value is exact.
\<close>

definition unsignedDecimal :: "string \<Rightarrow> rat option" where
  "unsignedDecimal u =
     (let whole = takeWhile isDigit u;
          afterWhole = dropWhile isDigit u;
          hasPoint = (afterWhole \<noteq> [] \<and> hd afterWhole = CHR ''.'');
          decimals = (if hasPoint then takeWhile isDigit (tl afterWhole) else []);
          afterDecimals = (if hasPoint then dropWhile isDigit (tl afterWhole) else afterWhole);
          exponent =
            (case afterDecimals of
               [] \<Rightarrow> Some 0
             | c # t \<Rightarrow>
                 if c = CHR ''e'' \<or> c = CHR ''E'' then
                   (case t of
                      [] \<Rightarrow> None
                    | s # ds \<Rightarrow>
                        if s = CHR ''-'' then map_option (\<lambda>n. - int n) (readNat ds)
                        else if s = CHR ''+'' then map_option int (readNat ds)
                        else map_option int (readNat t))
                 else None)
      in if whole = [] \<and> decimals = [] then None
         else
           (case (readDigits 0 whole, readDigits 0 decimals, exponent) of
              (Some i, Some f, Some e) \<Rightarrow>
                Some ((of_nat i + of_nat f / 10 ^ length decimals) * 10 powi e)
            | _ \<Rightarrow> None))"

text \<open>The radix of a literal that starts with \<^verbatim>\<open>0x\<close>, \<^verbatim>\<open>0o\<close> or \<^verbatim>\<open>0b\<close>.\<close>

definition prefixRadix :: "string \<Rightarrow> nat option" where
  "prefixRadix t =
     (case t of
        z # x # ds \<Rightarrow>
          if z = CHR ''0'' \<and> (x = CHR ''x'' \<or> x = CHR ''X'') then Some 16
          else if z = CHR ''0'' \<and> (x = CHR ''o'' \<or> x = CHR ''O'') then Some 8
          else if z = CHR ''0'' \<and> (x = CHR ''b'' \<or> x = CHR ''B'') then Some 2
          else None
      | _ \<Rightarrow> None)"

text \<open>
  The conversion of a text to a number, which JavaScript applies to a text compared with
  a number by \<^verbatim>\<open><\<close> or \<^verbatim>\<open>>\<close>: white space is stripped at both ends; the empty text is 0; a
  literal in radix 16, 8 or 2 has no sign; a decimal literal may have one; any other text
  is \<open>NaN\<close>. The exact value is rounded to binary64 (past 20 significant digits the
  standard lets a host round the digits first; the texts below are shorter).
\<close>

definition stringToNumber :: "string \<Rightarrow> jsnum" where
  "stringToNumber s =
     (let t = trim s in
      if t = [] then Fin 0
      else
        (case prefixRadix t of
           Some R \<Rightarrow>
             (if drop 2 t = [] then NaN
              else (case readRadix R 0 (drop 2 t) of
                      None \<Rightarrow> NaN
                    | Some n \<Rightarrow> rnd (of_nat n)))
         | None \<Rightarrow>
             (let negative = (hd t = CHR ''-'');
                  u = (if hd t = CHR ''-'' \<or> hd t = CHR ''+'' then tl t else t)
              in if u = ''Infinity'' then (if negative then NInf else PInf)
                 else (case unsignedDecimal u of
                         None \<Rightarrow> NaN
                       | Some v \<Rightarrow> rnd (if negative then - v else v)))))"

text \<open>
  \<^verbatim>\<open>parseInt\<close> of a text, with no radix given: white space is stripped at the start, then a
  sign, then \<^verbatim>\<open>0x\<close> or \<^verbatim>\<open>0X\<close>, which makes the radix 16; the digits that follow are read up to
  the first character that is not a digit of the radix, and the result is \<open>NaN\<close> when there
  is none. What follows the digits is ignored: \<^verbatim>\<open>parseInt("7.5")\<close> is 7.
\<close>

definition parseIntText :: "string \<Rightarrow> jsnum" where
  "parseIntText s =
     (let t = dropWhile isWhiteSpace s;
          negative = (t \<noteq> [] \<and> hd t = CHR ''-'');
          u = (if t \<noteq> [] \<and> (hd t = CHR ''-'' \<or> hd t = CHR ''+'') then tl t else t);
          hex = (prefixRadix u = Some 16);
          R = (if hex then 16 else 10);
          v = (if hex then drop 2 u else u);
          z = takeWhile (\<lambda>c. radixDigit R c \<noteq> None) v
      in if z = [] then NaN
         else (case readRadix R 0 z of
                 None \<Rightarrow> NaN
               | Some n \<Rightarrow> rnd (if negative then - of_nat n else of_nat n)))"

section \<open>The data model\<close>

text \<open>
  An expense as \<^verbatim>\<open>addExpense\<close> builds it, field by field. Identifiers are JavaScript numbers
  holding integers; the program adds and subtracts 1 on them, which is exact below
  \<open>2 ^ 53\<close>, and an array has fewer than \<open>2 ^ 32\<close> elements, so they are integers here.
  The field \<^verbatim>\<open>id\<close> is \<open>id_num\<close>, since \<open>id\<close> is the identity function of HOL.
\<close>

record expense =
  id_num :: int
  category :: string
  date :: string
  amount :: jsnum
  description :: string

text \<open>
  The configuration object, as \<^verbatim>\<open>loadConfig\<close> reads it from the file the program keeps.
  \<open>monthlyBudget\<close> is \<open>None\<close> when the object has no such field (\<^verbatim>\<open>loadConfig\<close> returns \<^verbatim>\<open>{}\<close>
  for a file it cannot parse). Otherwise it is what \<^verbatim>\<open>saveConfig\<close> wrote: \<^verbatim>\<open>JSON.stringify\<close>
  writes a finite number as itself, and \<^verbatim>\<open>null\<close> for a number that is not finite, so that
  the budget read back is a finite number or \<^verbatim>\<open>null\<close>.
\<close>

datatype jsonValue = JsonNull | JsonNumber jsnum

record config =
  monthlyBudget :: "jsonValue option"

text \<open>A number as \<^verbatim>\<open>JSON.stringify\<close> and \<^verbatim>\<open>JSON.parse\<close> hand it on.\<close>

definition jsonOfNumber :: "jsnum \<Rightarrow> jsonValue" where
  "jsonOfNumber x = (case x of Fin v \<Rightarrow> JsonNumber (Fin v) | _ \<Rightarrow> JsonNull)"

text \<open>The number that \<^verbatim>\<open>config.monthlyBudget\<close> is compared as: a missing field is
  \<^verbatim>\<open>undefined\<close>, which compares as \<open>NaN\<close>, and \<^verbatim>\<open>null\<close> compares as 0.\<close>

definition budgetNumber :: "jsonValue option \<Rightarrow> jsnum" where
  "budgetNumber budget =
     (case budget of None \<Rightarrow> NaN | Some JsonNull \<Rightarrow> Fin 0 | Some (JsonNumber b) \<Rightarrow> b)"

text \<open>
  The month that \<^verbatim>\<open>summaryExpenses\<close> and \<^verbatim>\<open>computeExpenses\<close> are given. \<^verbatim>\<open>main\<close> passes
  \<^verbatim>\<open>options.month || 0\<close>: the number 0 when the option is not given, \<^verbatim>\<open>true\<close> when it is given
  without a value, and else its text. \<^verbatim>\<open>addExpense\<close> passes a number, \<^verbatim>\<open>date.getMonth() + 1\<close>.
  The numbers passed are integers; \<open>toNumber\<close> is the conversion that \<^verbatim>\<open><\<close> and \<^verbatim>\<open>>\<close> apply,
  and \<open>parseInt\<close> is \<^verbatim>\<open>parseInt\<close>, which reads the text of its argument: the text of an
  integer (below \<open>10 ^ 21\<close> in magnitude) is made of its digits, and that of \<^verbatim>\<open>true\<close> has none.
\<close>

datatype monthArg = MonthNumber int | MonthText string | MonthTrue

fun toNumber :: "monthArg \<Rightarrow> jsnum" where
  "toNumber (MonthNumber i) = Fin (of_int i)"
| "toNumber (MonthText s) = stringToNumber s"
| "toNumber MonthTrue = Fin 1"

fun parseInt :: "monthArg \<Rightarrow> jsnum" where
  "parseInt (MonthNumber i) = Fin (of_int i)"
| "parseInt (MonthText s) = parseIntText s"
| "parseInt MonthTrue = NaN"

text \<open>
  Reading a stored date is left to the JavaScript host: \<open>getMonthOf s\<close> stands for
  \<^verbatim>\<open>new Date(s).getMonth()\<close>, the month of \<open>s\<close> in the host's local time, counted from 0,
  and is \<open>None\<close> when \<open>s\<close> is not a date the host reads (\<^verbatim>\<open>getMonth\<close> is then \<open>NaN\<close>,
  which equals no month). Every function that reads a date takes it as its first argument.
\<close>

type_synonym dateReader = "string \<Rightarrow> int option"

text \<open>The value of \<^verbatim>\<open>new Date()\<close> in \<^verbatim>\<open>addExpense\<close>, by the two readings the function makes
  of it: \<^verbatim>\<open>toISOString().split('T')[0]\<close> and \<^verbatim>\<open>getMonth()\<close>.\<close>

record jsdate =
  toISODate :: string
  getMonth :: int

text \<open>One constructor for each line the program prints, and one for the uncaught
  \<^verbatim>\<open>TypeError\<close> that ends a run. A total is printed with \<^verbatim>\<open>toFixed(2)\<close>, and the month of a
  summary as it was given.\<close>

datatype message =
    InvalidAmount
  | BudgetWarning jsnum
  | ExpenseAdded int
  | TotalExpenses jsnum
  | TotalForMonth monthArg jsnum
  | InvalidMonth
  | NotFound int
  | Deleted int
  | NoExpensesToExport
  | Exported
  | InvalidCategory
  | MissingCategory
  | AddUsage
  | InvalidBudget
  | BudgetSet jsnum
  | UncaughtTypeError

text \<open>The outcome of a command on the ledger: the lines printed, and the array given to
  \<^verbatim>\<open>saveExpenses\<close> when the command writes the ledger (\<open>None\<close> when it does not).\<close>

record outcome =
  printed :: "message list"
  saved :: "expense list option"

section \<open>The ledger engine\<close>

text \<open>
  \<^verbatim>\<open>computeExpenses(month, expenses)\<close>: \<^verbatim>\<open>parseInt\<close> of the month, the \<^verbatim>\<open>filter\<close> on the month
  of each date, then the \<^verbatim>\<open>reduce\<close> from 0. A date that the host does not read has the
  month \<open>NaN\<close>, which \<^verbatim>\<open>===\<close> finds equal to nothing.
\<close>

definition computeExpenses :: "dateReader \<Rightarrow> monthArg \<Rightarrow> expense list \<Rightarrow> jsnum" where
  "computeExpenses getMonthOf month expenses =
     (let targetMonth = parseInt month in
      foldl (\<lambda>sum expense. plus_js sum (amount expense)) (Fin 0)
        (filter (\<lambda>expense. case getMonthOf (date expense) of
                               None \<Rightarrow> False
                             | Some m \<Rightarrow> Fin (of_int (m + 1)) = targetMonth) expenses))"

text \<open>
  \<^verbatim>\<open>addExpense(amount, description, category)\<close> on the loaded ledger \<open>expenses\<close>, with the
  loaded configuration and the current date. The amount is a number, so that
  \<^verbatim>\<open>parseFloat(amount)\<close> is the amount itself. When the total is greater than the budget,
  the line of the warning is built with \<^verbatim>\<open>config.monthlyBudget.toFixed(2)\<close>: on a budget
  that is \<^verbatim>\<open>null\<close> this throws a \<^verbatim>\<open>TypeError\<close>, which nothing catches, and the run ends
  there, before \<^verbatim>\<open>expenses.push\<close> and \<^verbatim>\<open>saveExpenses\<close>.
\<close>

definition addExpense ::
  "dateReader \<Rightarrow> config \<Rightarrow> jsdate \<Rightarrow> jsnum \<Rightarrow> string \<Rightarrow> string \<Rightarrow> expense list \<Rightarrow> outcome" where
  "addExpense getMonthOf cfg now amt descr cat expenses =
     (let expensesID = (if length expenses > 0 then id_num (last expenses) + 1 else 1) in
      if isNaN amt \<or> le_js amt (Fin 0) then \<lparr>printed = [InvalidAmount], saved = None\<rparr>
      else
        (let newExpense = \<lparr>id_num = expensesID, category = cat, date = toISODate now,
                            amount = amt, description = descr\<rparr>;
             month = getMonth now + 1;
             totalExpenses = plus_js (computeExpenses getMonthOf (MonthNumber month) expenses)
                               (amount newExpense)
         in if gt_js totalExpenses (budgetNumber (monthlyBudget cfg)) then
              (case monthlyBudget cfg of
                 Some (JsonNumber b) \<Rightarrow>
                   \<lparr>printed = [BudgetWarning b, ExpenseAdded (id_num newExpense)],
                    saved = Some (expenses @ [newExpense])\<rparr>
               | _ \<Rightarrow> \<lparr>printed = [UncaughtTypeError], saved = None\<rparr>)
            else \<lparr>printed = [ExpenseAdded (id_num newExpense)],
                  saved = Some (expenses @ [newExpense])\<rparr>))"

text \<open>
  \<^verbatim>\<open>summaryExpenses(month)\<close> on the loaded ledger; it only prints. \<^verbatim>\<open>month === 0\<close> holds of
  the number 0 alone, not of a text.
\<close>

definition summaryExpenses :: "dateReader \<Rightarrow> monthArg \<Rightarrow> expense list \<Rightarrow> message list" where
  "summaryExpenses getMonthOf month expenses =
     (if month = MonthNumber 0 then
        [TotalExpenses (foldl (\<lambda>sum expense. plus_js sum (amount expense)) (Fin 0) expenses)]
      else if lt_js (toNumber month) (Fin 12) \<and> gt_js (toNumber month) (Fin 0) then
        [TotalForMonth month (computeExpenses getMonthOf month expenses)]
      else [InvalidMonth])"

text \<open>
  The case \<^verbatim>\<open>'summary'\<close> of \<^verbatim>\<open>main\<close>. An option of the command line is absent (\<open>None\<close>), given
  without a value (\<^verbatim>\<open>parseArgs\<close> makes it \<^verbatim>\<open>true\<close>), or given with a text; \<^verbatim>\<open>||\<close> replaces
  what is missing, and the empty text, by the number 0.
\<close>

datatype optionValue = OptionFlag | OptionText string

definition main_summary :: "dateReader \<Rightarrow> optionValue option \<Rightarrow> expense list \<Rightarrow> message list" where
  "main_summary getMonthOf month_option expenses =
     summaryExpenses getMonthOf
       (case month_option of
          None \<Rightarrow> MonthNumber 0
        | Some OptionFlag \<Rightarrow> MonthTrue
        | Some (OptionText s) \<Rightarrow> if s = [] then MonthNumber 0 else MonthText s)
       expenses"

text \<open>
  \<^verbatim>\<open>setBudget(amount)\<close> on the loaded configuration, for an amount that is a number: the
  line printed, and the configuration as the file holds it afterwards when it is written.
\<close>

definition setBudget :: "jsnum \<Rightarrow> config \<Rightarrow> message list \<times> config option" where
  "setBudget amt cfg =
     (if isNaN amt \<or> le_js amt (Fin 0) then ([InvalidBudget], None)
      else ([BudgetSet amt], Some (cfg\<lparr>monthlyBudget := Some (jsonOfNumber amt)\<rparr>)))"

text \<open>
  The loop of \<^verbatim>\<open>deleteExpense\<close>, from the flag \<open>found\<close> and the array \<open>updatedExpenses\<close>
  built so far. A record with the target identifier is skipped whether or not one was
  found before; the comparison reads the identifier as stored, before any decrement.
\<close>

fun deleteLoop :: "int \<Rightarrow> bool \<Rightarrow> expense list \<Rightarrow> expense list \<Rightarrow> bool \<times> expense list" where
  "deleteLoop targetId found updatedExpenses [] = (found, updatedExpenses)"
| "deleteLoop targetId found updatedExpenses (expense # rest) =
     (if id_num expense = targetId then deleteLoop targetId True updatedExpenses rest
      else deleteLoop targetId found
             (updatedExpenses @ [if found then expense\<lparr>id_num := id_num expense - 1\<rparr> else expense])
             rest)"

text \<open>\<^verbatim>\<open>deleteExpense(id)\<close> on the loaded ledger, for an integer identifier.\<close>

definition deleteExpense :: "int \<Rightarrow> expense list \<Rightarrow> outcome" where
  "deleteExpense targetId expenses =
     (case deleteLoop targetId False [] expenses of
        (found, updatedExpenses) \<Rightarrow>
          if \<not> found then \<lparr>printed = [NotFound targetId], saved = None\<rparr>
          else \<lparr>printed = [Deleted targetId], saved = Some updatedExpenses\<rparr>)"

text \<open>
  The ledger file after a command: \<^verbatim>\<open>saveExpenses\<close> replaces it by the array it is given,
  and a command that does not save leaves it as it was. \<open>addAll\<close> runs \<^verbatim>\<open>addExpense\<close> once
  for each request of a list, each run on the file the run before left.
\<close>

definition ledgerAfter :: "expense list \<Rightarrow> outcome \<Rightarrow> expense list" where
  "ledgerAfter expenses out = (case saved out of None \<Rightarrow> expenses | Some written \<Rightarrow> written)"

record addRequest =
  req_now :: jsdate
  req_amount :: jsnum
  req_description :: string
  req_category :: string

fun addAll :: "dateReader \<Rightarrow> config \<Rightarrow> addRequest list \<Rightarrow> expense list \<Rightarrow> expense list" where
  "addAll getMonthOf cfg [] expenses = expenses"
| "addAll getMonthOf cfg (r # rs) expenses =
     addAll getMonthOf cfg rs
       (ledgerAfter expenses
          (addExpense getMonthOf cfg (req_now r) (req_amount r) (req_description r)
             (req_category r) expenses))"

text \<open>\<open>allAdded\<close>: each run of the list saves the ledger, that is, each addition is
  successful.\<close>

fun allAdded :: "dateReader \<Rightarrow> config \<Rightarrow> addRequest list \<Rightarrow> expense list \<Rightarrow> bool" where
  "allAdded getMonthOf cfg [] expenses = True"
| "allAdded getMonthOf cfg (r # rs) expenses =
     (saved (addExpense getMonthOf cfg (req_now r) (req_amount r) (req_description r)
               (req_category r) expenses) \<noteq> None
      \<and> allAdded getMonthOf cfg rs
            (ledgerAfter expenses
               (addExpense getMonthOf cfg (req_now r) (req_amount r) (req_description r)
                  (req_category r) expenses)))"

text \<open>The statement \<^verbatim>\<open>expense.id -= 1\<close> of \<^verbatim>\<open>deleteExpense\<close>, as a function on records.\<close>

definition renumbered :: "expense \<Rightarrow> expense" where
  "renumbered e = e\<lparr>id_num := id_num e - 1\<rparr>"

section \<open>The caller's check of the category\<close>

text \<open>\<^verbatim>\<open>toLowerCase\<close> on the letters A to Z; the five categories are made of the letters a to
  z, and no other character becomes one of these by \<^verbatim>\<open>toLowerCase\<close>, but the Kelvin sign
  (to k), which no category has.\<close>

definition toLowerCase :: "string \<Rightarrow> string" where
  "toLowerCase s = map (\<lambda>c. let n = (of_char c :: nat) in
                               if 65 \<le> n \<and> n \<le> 90 then char_of (n + 32) else c) s"

definition isValidCategory :: "string \<Rightarrow> bool" where
  "isValidCategory cat =
     (toLowerCase cat \<in> set [''food'', ''transport'', ''entertainment'', ''utilities'', ''other''])"

text \<open>
  The options of the command \<^verbatim>\<open>add\<close>: \<open>None\<close> for an option that was not given, the text
  for a category or a description, and for an amount the number its text denotes.
\<close>

record addOptions =
  opt_amount :: "jsnum option"
  opt_description :: "string option"
  opt_category :: "string option"

text \<open>The case \<^verbatim>\<open>'add'\<close> of \<^verbatim>\<open>main\<close>.\<close>

definition main_add :: "dateReader \<Rightarrow> config \<Rightarrow> jsdate \<Rightarrow> addOptions \<Rightarrow> expense list \<Rightarrow> outcome" where
  "main_add getMonthOf cfg now options expenses =
     (case opt_category options of
        Some cat \<Rightarrow>
          if \<not> isValidCategory cat then \<lparr>printed = [InvalidCategory], saved = None\<rparr>
          else (case (opt_amount options, opt_description options) of
                  (Some amt, Some descr) \<Rightarrow> addExpense getMonthOf cfg now amt descr cat expenses
                | _ \<Rightarrow> \<lparr>printed = [AddUsage], saved = None\<rparr>)
      | None \<Rightarrow> \<lparr>printed = [MissingCategory], saved = None\<rparr>)"

section \<open>The export\<close>










section \<open>Reading the exported text back\<close>












section \<open>Hosts and ledgers for the scenarios\<close>

text \<open>
  The dates that \<^verbatim>\<open>addExpense\<close> stores are written \<^verbatim>\<open>YYYY-MM-DD\<close>. \<open>isoDateFields\<close> reads the
  year, the month and the day of such a text, when it is a date of the calendar, and
  \<open>calendarMonth\<close> is the month written, from 1 to 12.
\<close>

definition daysInMonth :: "nat \<Rightarrow> nat \<Rightarrow> nat" where
  "daysInMonth y m =
     (if m = 2 then (if y mod 4 = 0 \<and> (y mod 100 \<noteq> 0 \<or> y mod 400 = 0) then 29 else 28)
      else if m \<in> set [4, 6, 9, 11] then 30 else 31)"

fun isoDateFields :: "string \<Rightarrow> (nat \<times> nat \<times> nat) option" where
  "isoDateFields [y1, y2, y3, y4, s1, m1, m2, s2, d1, d2] =
     (case (readNat [y1, y2, y3, y4], readNat [m1, m2], readNat [d1, d2]) of
        (Some y, Some m, Some d) \<Rightarrow>
          if s1 = CHR ''-'' \<and> s2 = CHR ''-'' \<and> 1 \<le> m \<and> m \<le> 12 \<and> 1 \<le> d \<and> d \<le> daysInMonth y m
          then Some (y, m, d) else None
      | _ \<Rightarrow> None)"
| "isoDateFields _ = None"

definition calendarMonth :: "string \<Rightarrow> int option" where
  "calendarMonth s = (case isoDateFields s of None \<Rightarrow> None | Some (y, m, d) \<Rightarrow> Some (int m))"

text \<open>
  A host whose local time is ahead of UTC by \<open>utcOffset\<close> minutes (behind it when negative;
  less than a day either way). \<^verbatim>\<open>new Date("YYYY-MM-DD")\<close> is the midnight of that day in UTC,
  and \<^verbatim>\<open>getMonth()\<close> is the month of that instant in local time: the month written when the
  host is at or ahead of UTC, and the month of the day before when it is behind, which is
  the month before on the first day of a month. Any other text is no date for this host.
  \<open>isoMonthOf\<close> is the host whose local time is UTC.
\<close>

definition localMonthOf :: "int \<Rightarrow> dateReader" where
  "localMonthOf utcOffset s =
     (case isoDateFields s of
        None \<Rightarrow> None
      | Some (y, m, d) \<Rightarrow>
          Some (if utcOffset < 0 \<and> d = 1 then (if m = 1 then 11 else int m - 2)
                else int m - 1))"

definition isoMonthOf :: dateReader where
  "isoMonthOf s = localMonthOf 0 s"

definition lunch :: expense where
  "lunch = \<lparr>id_num = 1, category = ''food'', date = ''2025-07-03'', amount = Fin 15,
            description = ''Lunch''\<rparr>"

definition groceries :: expense where
  "groceries = \<lparr>id_num = 2, category = ''food'', date = ''2025-07-10'', amount = Fin 25,
                description = ''Groceries''\<rparr>"

definition busPass :: expense where
  "busPass = \<lparr>id_num = 3, category = ''transport'', date = ''2025-08-02'', amount = Fin 30,
              description = ''Bus pass''\<rparr>"

definition midJuly :: jsdate where
  "midJuly = \<lparr>toISODate = ''2025-07-15'', getMonth = 6\<rparr>"

text \<open>
  The instant 2025-08-01 02:00 UTC on a host five hours behind UTC, where it is 21:00 on
  the 31st of July: \<^verbatim>\<open>toISOString()\<close> gives the date in UTC, and \<^verbatim>\<open>getMonth()\<close> the month
  in local time. \<open>rent\<close> is a record dated on the first of August.
\<close>

definition firstOfAugustUTC :: jsdate where
  "firstOfAugustUTC = \<lparr>toISODate = ''2025-08-01'', getMonth = 6\<rparr>"

definition rent :: expense where
  "rent = \<lparr>id_num = 1, category = ''utilities'', date = ''2025-08-01'', amount = Fin 30,
           description = ''Rent''\<rparr>"

text \<open>Three records of July whose amounts are the numbers that 0.1, 0.2 and 0.3 denote in
  JavaScript.\<close>

definition gum :: expense where
  "gum = \<lparr>id_num = 1, category = ''food'', date = ''2025-07-10'', amount = rnd (1 / 10),
          description = ''Gum''\<rparr>"

definition pen :: expense where
  "pen = \<lparr>id_num = 2, category = ''other'', date = ''2025-07-11'', amount = rnd (1 / 5),
          description = ''Pen''\<rparr>"

definition stamp :: expense where
  "stamp = \<lparr>id_num = 3, category = ''other'', date = ''2025-07-12'', amount = rnd (3 / 10),
            description = ''Stamp''\<rparr>"



section \<open>Deletion\<close>

lemma deleteLoop_found:
  "deleteLoop t True upd es = (True, upd @ map renumbered (filter (\<lambda>e. id_num e \<noteq> t) es))"
  by (induction es arbitrary: upd) (simp_all add: renumbered_def)

lemma deleteLoop_absent:
  "t \<notin> id_num ` set es \<Longrightarrow> deleteLoop t False upd es = (False, upd @ es)"
  by (induction es arbitrary: upd) auto

lemma deleteLoop_split:
  assumes "t \<notin> id_num ` set before" and "id_num x = t"
  shows "deleteLoop t False upd (before @ x # after) =
         (True, upd @ before @ map renumbered (filter (\<lambda>e. id_num e \<noteq> t) after))"
  using assms by (induction before arbitrary: upd) (auto simp: deleteLoop_found)

lemma upto_shift: "map (\<lambda>i. i - 1) [a + 1..b] = [a..b - 1]"
  by (rule nth_equalityI) simp_all

lemma dense_split:
  assumes ids: "map id_num ledger = [1..int N]" and k: "k \<in> id_num ` set ledger"
  shows "\<exists>x. id_num x = k \<and>
           ledger = take (nat k - 1) ledger @ x # drop (nat k) ledger \<and>
           map id_num (take (nat k - 1) ledger) = [1..k - 1] \<and>
           map id_num (drop (nat k) ledger) = [k + 1..int N]"
proof -
  have "k \<in> set (map id_num ledger)" using k by simp
  then have bounds: "1 \<le> k" "k \<le> int N" by (simp_all add: ids)
  have "map id_num ledger = [1..k - 1] @ k # [k + 1..int N]"
    using bounds by (simp add: ids upto_split3)
  then obtain A x B where L: "ledger = A @ x # B" and A: "map id_num A = [1..k - 1]"
    and x: "id_num x = k" and B: "map id_num B = [k + 1..int N]"
    by (auto simp: map_eq_append_conv map_eq_Cons_conv)
  have "length A = length (map id_num A)" by simp
  also have "\<dots> = nat k - 1" using bounds by (simp add: A)
  finally have len: "length A = nat k - 1" .
  then have "Suc (length A) = nat k" using bounds by simp
  then have "take (nat k - 1) ledger = A" and "drop (nat k) ledger = B"
    using len by (simp_all add: L)
  then show ?thesis using L A x B by auto
qed

text \<open>
  C1. A ledger whose identifiers are exactly \<open>1, \<dots>, N\<close> holds them in this order: an
  addition appends the last identifier plus 1, and a deletion keeps the order of the
  records it keeps. On such a ledger, when it holds a record with identifier \<open>k\<close>,
  \<^verbatim>\<open>deleteExpense(k)\<close> saves a ledger of \<open>N - 1\<close> records whose identifiers are exactly
  \<open>1, \<dots>, N - 1\<close>: the records before the removed one as they were, then the records after
  it in their order, each with its identifier lowered by exactly 1.
\<close>

theorem deleteExpense_renumbers:
  assumes ids: "map id_num ledger = [1..int N]" and k: "k \<in> id_num ` set ledger"
  shows "\<exists>updated. deleteExpense k ledger = \<lparr>printed = [Deleted k], saved = Some updated\<rparr>
           \<and> length updated = N - 1
           \<and> map id_num updated = [1..int N - 1]
           \<and> id_num ` set updated = {1..int N - 1}
           \<and> updated = take (nat k - 1) ledger @ map renumbered (drop (nat k) ledger)"
proof -
  let ?A = "take (nat k - 1) ledger" and ?B = "drop (nat k) ledger"
  obtain x where x: "id_num x = k" and L: "ledger = ?A @ x # ?B"
    and A: "map id_num ?A = [1..k - 1]" and B: "map id_num ?B = [k + 1..int N]"
    using dense_split [OF ids k] by blast
  have "k \<in> set (map id_num ledger)" using k by simp
  then have bounds: "1 \<le> k" "k \<le> int N" by (simp_all add: ids)
  have "k \<notin> set (map id_num ?A)" unfolding A by simp
  then have notA: "k \<notin> id_num ` set ?A" by simp
  have "k \<notin> set (map id_num ?B)" unfolding B by simp
  then have "k \<notin> id_num ` set ?B" by simp
  then have "\<forall>e \<in> set ?B. id_num e \<noteq> k" by blast
  then have keep: "filter (\<lambda>e. id_num e \<noteq> k) ?B = ?B" by simp
  have "deleteLoop k False [] (?A @ x # ?B) = (True, [] @ ?A @ map renumbered ?B)"
    using deleteLoop_split [OF notA x, of "[]" ?B] by (simp add: keep)
  then have loop: "deleteLoop k False [] ledger = (True, ?A @ map renumbered ?B)"
    using L by simp
  have del: "deleteExpense k ledger = \<lparr>printed = [Deleted k], saved = Some (?A @ map renumbered ?B)\<rparr>"
    by (simp add: deleteExpense_def loop)
  have "length ledger = length (map id_num ledger)" by simp
  also have "\<dots> = N" by (simp add: ids)
  finally have lenL: "length ledger = N" .
  have len: "length (?A @ map renumbered ?B) = N - 1"
    using bounds lenL by simp
  have "map id_num (map renumbered ?B) = map (\<lambda>i. i - 1) (map id_num ?B)"
    by (simp add: renumbered_def)
  also have "\<dots> = [k..int N - 1]" by (simp only: B upto_shift)
  finally have "map id_num (?A @ map renumbered ?B) = [1..k - 1] @ [k..int N - 1]"
    by (simp only: map_append A)
  also have "\<dots> = [1..int N - 1]"
  proof (cases "k = int N")
    case True
    then show ?thesis by simp
  next
    case False
    then have "k \<le> int N - 1" using bounds by simp
    then show ?thesis using bounds upto_split1 [of 1 k "int N - 1"] by simp
  qed
  finally have idsU: "map id_num (?A @ map renumbered ?B) = [1..int N - 1]" .
  have "set (map id_num (?A @ map renumbered ?B)) = {1..int N - 1}"
    by (simp only: idsU set_upto)
  then have setU: "id_num ` set (?A @ map renumbered ?B) = {1..int N - 1}"
    by (simp only: set_map)
  show ?thesis using del len idsU setU by blast
qed

theorem deleteExpense_renumbers_witness:
  "map id_num [lunch, groceries, busPass] = [1..int 3]
   \<and> 2 \<in> id_num ` set [lunch, groceries, busPass]
   \<and> deleteExpense 2 [lunch, groceries, busPass] =
       \<lparr>printed = [Deleted 2], saved = Some [lunch, busPass\<lparr>id_num := 2\<rparr>]\<rparr>"
proof -
  have ids: "map id_num [lunch, groceries, busPass] = [1..int 3]"
    by (simp add: lunch_def groceries_def busPass_def upto.simps)
  have k: "2 \<in> id_num ` set [lunch, groceries, busPass]"
    by (simp add: groceries_def)
  obtain updated where
    "deleteExpense 2 [lunch, groceries, busPass] = \<lparr>printed = [Deleted 2], saved = Some updated\<rparr>"
    and "updated = take (nat 2 - 1) [lunch, groceries, busPass]
           @ map renumbered (drop (nat 2) [lunch, groceries, busPass])"
    using deleteExpense_renumbers [OF ids k] by blast
  then have "deleteExpense 2 [lunch, groceries, busPass] =
             \<lparr>printed = [Deleted 2], saved = Some [lunch, busPass\<lparr>id_num := 2\<rparr>]\<rparr>"
    by (simp add: renumbered_def busPass_def)
  then show ?thesis using ids k by simp
qed

text \<open>
  C8. For an identifier that no record of the ledger has, \<^verbatim>\<open>deleteExpense\<close> prints that the
  expense was not found and saves nothing: the loop has rebuilt the ledger as it was, no
  identifier was changed, and the ledger file stays as it is.
\<close>

theorem deleteExpense_not_found:
  assumes "k \<notin> id_num ` set ledger"
  shows "deleteExpense k ledger = \<lparr>printed = [NotFound k], saved = None\<rparr>
         \<and> deleteLoop k False [] ledger = (False, ledger)
         \<and> ledgerAfter ledger (deleteExpense k ledger) = ledger"
proof -
  have loop: "deleteLoop k False [] ledger = (False, ledger)"
    using deleteLoop_absent [OF assms, of "[]"] by simp
  then have "deleteExpense k ledger = \<lparr>printed = [NotFound k], saved = None\<rparr>"
    by (simp add: deleteExpense_def)
  then show ?thesis using loop by (simp add: ledgerAfter_def)
qed

theorem deleteExpense_not_found_witness:
  "7 \<notin> id_num ` set [lunch, groceries, busPass]
   \<and> deleteExpense 7 [lunch, groceries, busPass] = \<lparr>printed = [NotFound 7], saved = None\<rparr>
   \<and> ledgerAfter [lunch, groceries, busPass] (deleteExpense 7 [lunch, groceries, busPass]) =
       [lunch, groceries, busPass]"
proof -
  have h: "7 \<notin> id_num ` set [lunch, groceries, busPass]"
    by (simp add: lunch_def groceries_def busPass_def)
  show ?thesis using h deleteExpense_not_found [OF h] by blast
qed

section \<open>Rounding\<close>

lemma bitlen_powi_bounds:
  assumes "0 < n"
  shows "(2::rat) powi (bitlen n - 1) \<le> of_int n" and "of_int n < (2::rat) powi (bitlen n)"
proof -
  have b: "1 \<le> bitlen n" using assms by (simp add: bitlen_alt_def)
  have "(2::int) ^ nat (bitlen n - 1) \<le> n" and "n < 2 ^ nat (bitlen n)"
    using bitlen_bounds [OF assms] by auto
  then have "(of_int ((2::int) ^ nat (bitlen n - 1)) :: rat) \<le> of_int n"
    and "(of_int n :: rat) < of_int (2 ^ nat (bitlen n))"
    by (simp_all only: of_int_le_iff of_int_less_iff)
  then show "(2::rat) powi (bitlen n - 1) \<le> of_int n" and "of_int n < (2::rat) powi (bitlen n)"
    using b by (simp_all add: power_int_def)
qed

lemma floorlog2_bounds:
  assumes "0 < x"
  shows "2 powi (floorlog2 x) \<le> x \<and> x < 2 powi (floorlog2 x + 1)"
proof -
  obtain p q where pq: "quotient_of x = (p, q)" by (cases "quotient_of x")
  have q: "0 < q" using pq by (rule quotient_of_denom_pos)
  have x: "x = of_int p / of_int q" using pq by (rule quotient_of_div)
  have p: "0 < p" using assms q x by (simp add: zero_less_divide_iff)
  let ?d = "bitlen p - bitlen q"
  have up: "x < 2 powi (?d + 1)"
  proof -
    have "of_int p < (2::rat) powi (bitlen p)" by (rule bitlen_powi_bounds [OF p])
    moreover have "(2::rat) powi (bitlen q - 1) \<le> of_int q" by (rule bitlen_powi_bounds [OF q])
    moreover have "(2::rat) powi (?d + 1) * 2 powi (bitlen q - 1) = 2 powi (bitlen p)"
      by (simp flip: power_int_add)
    moreover have "(2::rat) powi (?d + 1) * 2 powi (bitlen q - 1) \<le> 2 powi (?d + 1) * of_int q"
      using calculation(2) by (intro mult_left_mono) simp_all
    ultimately have "of_int p < (2::rat) powi (?d + 1) * of_int q"
      by linarith
    then show ?thesis using q by (simp add: x pos_divide_less_eq)
  qed
  have lo: "2 powi (?d - 1) \<le> x"
  proof -
    have "(2::rat) powi (bitlen p - 1) \<le> of_int p" by (rule bitlen_powi_bounds [OF p])
    moreover have "of_int q < (2::rat) powi (bitlen q)" by (rule bitlen_powi_bounds [OF q])
    moreover have "(2::rat) powi (?d - 1) * 2 powi (bitlen q) = 2 powi (bitlen p - 1)"
      by (simp flip: power_int_add)
    moreover have "(2::rat) powi (?d - 1) * of_int q \<le> 2 powi (?d - 1) * 2 powi (bitlen q)"
      using calculation(2) by (intro mult_left_mono) simp_all
    ultimately have "(2::rat) powi (?d - 1) * of_int q \<le> of_int p"
      by linarith
    then show ?thesis using q by (simp add: x pos_le_divide_eq)
  qed
  have two: "(2::rat) powi (?d - 1 + 1) = 2 powi ?d" by simp
  show ?thesis
    using up lo two by (simp add: floorlog2_def pq Let_def del: diff_add_cancel)
qed

lemma floorlog2_unique:
  assumes "2 powi e \<le> x" and "x < 2 powi (e + 1)"
  shows "floorlog2 x = e"
proof -
  have "(0::rat) < 2 powi e" by simp
  then have "0 < x" using assms(1) by linarith
  note b = floorlog2_bounds [OF this]
  have "(2::rat) powi e < 2 powi (floorlog2 x + 1)" using assms(1) b by simp
  then have "e < floorlog2 x + 1"
    using power_int_increasing [of "floorlog2 x + 1" e "2::rat"] by (cases "e < floorlog2 x + 1") simp_all
  moreover have "(2::rat) powi (floorlog2 x) < 2 powi (e + 1)" using assms(2) b by simp
  then have "floorlog2 x < e + 1"
    using power_int_increasing [of "e + 1" "floorlog2 x" "2::rat"] by (cases "floorlog2 x < e + 1") simp_all
  ultimately show ?thesis by simp
qed

lemma roundTiesToEven_of_int: "roundTiesToEven (of_int k) = k"
  by (simp add: roundTiesToEven_def)

lemma roundTiesToEven_near:
  assumes "\<bar>q - of_int k\<bar> < 1 / 2"
  shows "roundTiesToEven q = k"
proof -
  have lo: "of_int k - 1 / 2 < q" and hi: "q < of_int k + 1 / 2" using assms by linarith+
  have f: "of_int \<lfloor>q\<rfloor> \<le> q" "q < of_int \<lfloor>q\<rfloor> + 1" by linarith+
  have "(of_int \<lfloor>q\<rfloor> :: rat) < of_int k + 1 / 2" using f(1) hi by linarith
  then have "(of_int \<lfloor>q\<rfloor> :: rat) < of_int (k + 1)" by simp
  then have up: "\<lfloor>q\<rfloor> < k + 1" by (simp only: of_int_less_iff)
  have "(of_int k :: rat) - 1 / 2 < of_int \<lfloor>q\<rfloor> + 1" using f(2) lo by linarith
  then have "(of_int (k - 2) :: rat) < of_int \<lfloor>q\<rfloor>" by simp
  then have dn: "k - 2 < \<lfloor>q\<rfloor>" by (simp only: of_int_less_iff)
  consider "\<lfloor>q\<rfloor> = k" | "\<lfloor>q\<rfloor> = k - 1" using up dn by linarith
  then show ?thesis
  proof cases
    case 1
    then show ?thesis using hi by (simp add: roundTiesToEven_def Let_def)
  next
    case 2
    then show ?thesis using lo by (simp add: roundTiesToEven_def Let_def)
  qed
qed

lemma roundTiesToEven_tie:
  assumes "q = of_int f + 1 / 2"
  shows "roundTiesToEven q = (if even f then f else f + 1)"
proof -
  have "\<lfloor>q\<rfloor> = f" unfolding assms by linarith
  then show ?thesis by (simp add: roundTiesToEven_def Let_def assms)
qed

lemma rnd_at:
  assumes "2 powi e \<le> \<bar>x\<bar>" and "\<bar>x\<bar> < 2 powi (e + 1)" and "- 1022 \<le> e"
    and "roundTiesToEven (x / 2 powi (e - 52)) = k"
    and "\<bar>of_int k * 2 powi (e - 52)\<bar> < (2::rat) powi 1024"
  shows "rnd x = Fin (of_int k * 2 powi (e - 52))"
proof -
  have "(0::rat) < 2 powi e" by simp
  then have x: "x \<noteq> 0" using assms(1) by linarith
  have e: "floorlog2 \<bar>x\<bar> = e" using assms(1,2) by (rule floorlog2_unique)
  have m: "max e (- 1022) = e" using assms(3) by simp
  show ?thesis
    using x assms(4,5) by (simp add: rnd_def e m Let_def del: power_int_numeral)
qed

lemma rnd_near:
  assumes "2 powi e \<le> \<bar>x\<bar>" and "\<bar>x\<bar> < 2 powi (e + 1)" and "- 1022 \<le> e"
    and "\<bar>x / 2 powi (e - 52) - of_int k\<bar> < 1 / 2"
    and "\<bar>of_int k * 2 powi (e - 52)\<bar> < (2::rat) powi 1024"
  shows "rnd x = Fin (of_int k * 2 powi (e - 52))"
  using assms(1,2,3) roundTiesToEven_near [OF assms(4)] assms(5) by (rule rnd_at)

lemma rnd_int:
  assumes "\<bar>n\<bar> \<le> 2 ^ 53"
  shows "rnd (of_int n) = Fin (of_int n)"
proof (cases "n = 0")
  case True
  then show ?thesis by (simp add: rnd_def)
next
  case False
  define x :: rat where "x = of_int n"
  define e where "e = floorlog2 \<bar>x\<bar>"
  have x1: "1 \<le> \<bar>x\<bar>" using False unfolding x_def by (simp flip: of_int_abs)
  have x53: "\<bar>x\<bar> \<le> 2 ^ 53"
  proof -
    have "(of_int \<bar>n\<bar> :: rat) \<le> of_int (2 ^ 53)" using assms by (simp only: of_int_le_iff)
    then show ?thesis unfolding x_def by simp
  qed
  have pos: "0 < \<bar>x\<bar>" using x1 by linarith
  have lo: "2 powi e \<le> \<bar>x\<bar>" and hi: "\<bar>x\<bar> < 2 powi (e + 1)"
    using floorlog2_bounds [OF pos] unfolding e_def by simp_all
  have e0: "0 \<le> e"
  proof (rule ccontr)
    assume "\<not> 0 \<le> e"
    then have "e + 1 \<le> 0" by simp
    then have "(2::rat) powi (e + 1) \<le> 2 powi 0" by (intro power_int_increasing) simp_all
    then show False using hi x1 by simp
  qed
  have e53: "e \<le> 53"
  proof (rule ccontr)
    assume "\<not> e \<le> 53"
    then have "54 \<le> e" by simp
    then have "(2::rat) powi 54 \<le> 2 powi e" by (intro power_int_increasing) simp_all
    then show False using lo x53 by simp
  qed
  have "\<exists>k. x / 2 powi (e - 52) = of_int k"
  proof (cases "e = 53")
    case True
    then have "(2::rat) ^ 53 \<le> \<bar>x\<bar>" using lo by simp
    then have "\<bar>x\<bar> = 2 ^ 53" using x53 by linarith
    then have "x = 2 ^ 53 \<or> x = - (2 ^ 53)" by linarith
    then have "x / 2 powi (e - 52) = of_int (2 ^ 52) \<or> x / 2 powi (e - 52) = of_int (- (2 ^ 52))"
      using True by auto
    then show ?thesis by blast
  next
    case False
    then have le: "e \<le> 52" using e53 by simp
    have "x / 2 powi (e - 52) = x * 2 powi (52 - e)"
      by (simp add: power_int_diff field_simps)
    also have "\<dots> = of_int n * of_int (2 ^ nat (52 - e))"
      using le by (simp add: x_def power_int_def)
    also have "\<dots> = of_int (n * 2 ^ nat (52 - e))" by simp
    finally show ?thesis by blast
  qed
  then obtain k where k: "x / 2 powi (e - 52) = of_int k" by blast
  have u: "(2::rat) powi (e - 52) \<noteq> 0" by simp
  have y: "of_int k * 2 powi (e - 52) = x"
    using k u by (simp add: field_simps)
  have r: "roundTiesToEven (x / 2 powi (e - 52)) = k"
    unfolding k by (rule roundTiesToEven_of_int)
  have "\<bar>x\<bar> < 2 powi 1024" using x53 by simp
  then have big: "\<bar>of_int k * 2 powi (e - 52)\<bar> < (2::rat) powi 1024" by (simp only: y)
  have "rnd x = Fin (of_int k * 2 powi (e - 52))"
    using lo hi _ r big by (rule rnd_at) (use e0 in simp)
  then show ?thesis by (simp only: y x_def)
qed

lemma rnd_numeral: "numeral w \<le> (2::int) ^ 53 \<Longrightarrow> rnd (numeral w) = Fin (numeral w)"
  using rnd_int [of "numeral w"] by simp

lemma rnd_one: "rnd 1 = Fin 1"
  using rnd_int [of 1] by simp



section \<open>Additions\<close>

lemma addExpense_rejected:
  assumes "isNaN amt \<or> le_js amt (Fin 0)"
  shows "addExpense g cfg now amt descr cat expenses = \<lparr>printed = [InvalidAmount], saved = None\<rparr>"
  using assms by (simp add: addExpense_def)

lemma addExpense_accepted:
  assumes "\<not> (isNaN amt \<or> le_js amt (Fin 0))" and "monthlyBudget cfg \<noteq> Some JsonNull"
  shows "addExpense g cfg now amt descr cat expenses =
         \<lparr>printed =
            (case monthlyBudget cfg of
               Some (JsonNumber b) \<Rightarrow>
                 if gt_js (plus_js (computeExpenses g (MonthNumber (getMonth now + 1)) expenses) amt) b
                 then [BudgetWarning b] else []
             | _ \<Rightarrow> [])
            @ [ExpenseAdded (if expenses = [] then 1 else id_num (last expenses) + 1)],
          saved = Some (expenses @
            [\<lparr>id_num = (if expenses = [] then 1 else id_num (last expenses) + 1),
              category = cat, date = toISODate now, amount = amt, description = descr\<rparr>])\<rparr>"
  using assms
  by (simp add: addExpense_def Let_def budgetNumber_def gt_js_def
      split: option.splits jsonValue.splits)

lemma addExpense_null_budget:
  assumes "\<not> (isNaN amt \<or> le_js amt (Fin 0))" and "monthlyBudget cfg = Some JsonNull"
  shows "addExpense g cfg now amt descr cat expenses =
         (if gt_js (plus_js (computeExpenses g (MonthNumber (getMonth now + 1)) expenses) amt) (Fin 0)
          then \<lparr>printed = [UncaughtTypeError], saved = None\<rparr>
          else \<lparr>printed = [ExpenseAdded (if expenses = [] then 1 else id_num (last expenses) + 1)],
                saved = Some (expenses @
                  [\<lparr>id_num = (if expenses = [] then 1 else id_num (last expenses) + 1),
                    category = cat, date = toISODate now, amount = amt, description = descr\<rparr>])\<rparr>)"
proof -
  have next_id: "(if length expenses > 0 then id_num (last expenses) + 1 else 1) =
                 (if expenses = [] then 1 else id_num (last expenses) + 1)"
    by simp
  show ?thesis
    using assms unfolding addExpense_def Let_def next_id by (auto simp: budgetNumber_def)
qed

lemma addExpense_saved:
  assumes "saved (addExpense g cfg now amt descr cat expenses) \<noteq> None"
  shows "saved (addExpense g cfg now amt descr cat expenses) =
           Some (expenses @
             [\<lparr>id_num = (if expenses = [] then 1 else id_num (last expenses) + 1),
               category = cat, date = toISODate now, amount = amt, description = descr\<rparr>])"
    and "last (printed (addExpense g cfg now amt descr cat expenses)) =
           ExpenseAdded (if expenses = [] then 1 else id_num (last expenses) + 1)"
proof -
  let ?out = "addExpense g cfg now amt descr cat expenses"
  let ?total = "plus_js (computeExpenses g (MonthNumber (getMonth now + 1)) expenses) amt"
  let ?id = "if expenses = [] then 1 else id_num (last expenses) + 1"
  let ?new = "\<lparr>id_num = ?id, category = cat, date = toISODate now, amount = amt,
                description = descr\<rparr>"
  have valid: "\<not> (isNaN amt \<or> le_js amt (Fin 0))"
    using assms addExpense_rejected [of amt g cfg now descr cat expenses] by auto
  have "saved ?out = Some (expenses @ [?new]) \<and> last (printed ?out) = ExpenseAdded ?id"
  proof (cases "monthlyBudget cfg = Some JsonNull")
    case True
    note out = addExpense_null_budget [OF valid True, of g now descr cat expenses]
    have "\<not> gt_js ?total (Fin 0)"
    proof
      assume "gt_js ?total (Fin 0)"
      then have "saved ?out = None" using out by simp
      then show False using assms by simp
    qed
    then have "?out = \<lparr>printed = [ExpenseAdded ?id], saved = Some (expenses @ [?new])\<rparr>"
      using out by simp
    then show ?thesis by simp
  next
    case False
    then show ?thesis by (simp add: addExpense_accepted [OF valid False])
  qed
  then show "saved ?out = Some (expenses @ [?new])" and "last (printed ?out) = ExpenseAdded ?id"
    by simp_all
qed

lemma foldl_amounts:
  "foldl (\<lambda>sum e. plus_js sum (amount e)) z es = foldl plus_js z (map amount es)"
  by (induction es arbitrary: z) simp_all

lemma computeExpenses_fold:
  "computeExpenses g (MonthNumber month) expenses =
   foldl plus_js (Fin 0) (map amount (filter (\<lambda>e. g (date e) = Some (month - 1)) expenses))"
proof -
  have p: "(\<lambda>e. case g (date e) of None \<Rightarrow> False
                | Some m \<Rightarrow> Fin (of_int (m + 1)) = Fin (of_int month)) =
           (\<lambda>e. g (date e) = Some (month - 1))"
    by (auto split: option.splits)
  show ?thesis by (simp add: computeExpenses_def p foldl_amounts)
qed

lemma last_upto_int: "1 \<le> n \<Longrightarrow> last [1..n] = (n::int)"
  by (simp add: upto_rec2)

lemma addAll_dense:
  assumes "allAdded g cfg requests expenses"
    and "map id_num expenses = [1..int M]"
  shows "map id_num (addAll g cfg requests expenses) = [1..int (M + length requests)]"
  using assms
proof (induction requests arbitrary: expenses M)
  case Nil
  then show ?case by simp
next
  case (Cons r requests)
  let ?out = "addExpense g cfg (req_now r) (req_amount r) (req_description r) (req_category r)
                expenses"
  let ?new = "\<lparr>id_num = (if expenses = [] then 1 else id_num (last expenses) + 1),
                category = req_category r, date = toISODate (req_now r), amount = req_amount r,
                description = req_description r\<rparr>"
  have added: "saved ?out \<noteq> None" and rest: "allAdded g cfg requests (ledgerAfter expenses ?out)"
    using Cons.prems(1) by simp_all
  have after: "ledgerAfter expenses ?out = expenses @ [?new]"
    by (simp add: addExpense_saved(1) [OF added] ledgerAfter_def)
  have next_id: "id_num ?new = int M + 1"
  proof (cases "expenses = []")
    case True
    then have "[1..int M] = []" using Cons.prems(2) by simp
    then have "M = 0" by simp
    then show ?thesis using True by simp
  next
    case False
    then have "map id_num expenses \<noteq> []" by simp
    then have M: "1 \<le> int M" using Cons.prems(2) by simp
    have "id_num (last expenses) = last (map id_num expenses)"
      using False by (simp add: last_map)
    also have "\<dots> = int M" using M by (simp add: Cons.prems(2) last_upto_int)
    finally show ?thesis using False by simp
  qed
  have "map id_num (expenses @ [?new]) = [1..int M] @ [int M + 1]"
    using next_id Cons.prems(2) by simp
  also have "\<dots> = [1..int M + 1]"
    using upto_rec2 [of 1 "int M + 1"] by simp
  also have "\<dots> = [1..int (Suc M)]"
    by (simp add: add.commute)
  finally have ids: "map id_num (expenses @ [?new]) = [1..int (Suc M)]" .
  have "map id_num (addAll g cfg requests (expenses @ [?new])) = [1..int (Suc M + length requests)]"
    using rest ids unfolding after by (rule Cons.IH)
  then show ?case by (simp add: after)
qed

lemma allAdded_valid:
  assumes "monthlyBudget cfg \<noteq> Some JsonNull"
    and "\<forall>r \<in> set requests. \<not> (isNaN (req_amount r) \<or> le_js (req_amount r) (Fin 0))"
  shows "allAdded g cfg requests expenses"
  using assms(2)
proof (induction requests arbitrary: expenses)
  case Nil
  then show ?case by simp
next
  case (Cons r requests)
  have valid: "\<not> (isNaN (req_amount r) \<or> le_js (req_amount r) (Fin 0))"
    using Cons.prems by simp
  have "saved (addExpense g cfg (req_now r) (req_amount r) (req_description r) (req_category r)
                 ledger) \<noteq> None" for ledger
    by (simp add: addExpense_accepted [OF valid assms(1)])
  moreover have "allAdded g cfg requests ledger" for ledger
    using Cons.prems by (intro Cons.IH) simp
  ultimately show ?case by simp
qed

text \<open>
  C2. A successful addition is a run of \<^verbatim>\<open>addExpense\<close> that saves the ledger: it saves it
  with one more record, whose identifier is that of the last record plus 1, or 1 when the
  ledger was empty, and prints that identifier. After \<open>N\<close> successful additions from the
  empty ledger, each on the file the run before saved, the identifiers are \<open>1, \<dots>, N\<close> in
  stored order, and so the set \<open>{1..N}\<close>. Every run with an amount that passes the check is
  successful when the stored budget is not \<^verbatim>\<open>null\<close>.
\<close>

theorem addExpense_identifiers:
  "(allAdded g cfg requests [] \<longrightarrow>
      map id_num (addAll g cfg requests []) = [1..int (length requests)]
      \<and> id_num ` set (addAll g cfg requests []) = {1..int (length requests)})
   \<and> (monthlyBudget cfg \<noteq> Some JsonNull
      \<and> (\<forall>r \<in> set requests. \<not> (isNaN (req_amount r) \<or> le_js (req_amount r) (Fin 0))) \<longrightarrow>
      allAdded g cfg requests []
      \<and> map id_num (addAll g cfg requests []) = [1..int (length requests)]
      \<and> id_num ` set (addAll g cfg requests []) = {1..int (length requests)})
   \<and> (saved (addExpense g cfg now amt descr cat expenses) \<noteq> None \<longrightarrow>
      (\<exists>e. saved (addExpense g cfg now amt descr cat expenses) = Some (expenses @ [e])
         \<and> id_num e = (if expenses = [] then 1 else id_num (last expenses) + 1)
         \<and> last (printed (addExpense g cfg now amt descr cat expenses)) = ExpenseAdded (id_num e)))
   \<and> (monthlyBudget cfg \<noteq> Some JsonNull \<and> \<not> (isNaN amt \<or> le_js amt (Fin 0)) \<longrightarrow>
      (\<exists>e. saved (addExpense g cfg now amt descr cat expenses) = Some (expenses @ [e])
         \<and> id_num e = (if expenses = [] then 1 else id_num (last expenses) + 1)
         \<and> last (printed (addExpense g cfg now amt descr cat expenses)) = ExpenseAdded (id_num e)))"
proof -
  have dense: "map id_num (addAll g cfg requests []) = [1..int (length requests)]
      \<and> id_num ` set (addAll g cfg requests []) = {1..int (length requests)}"
    if all: "allAdded g cfg requests []"
  proof -
    have "map id_num ([] :: expense list) = [1..int 0]" by simp
    from addAll_dense [OF all this]
    have ids: "map id_num (addAll g cfg requests []) = [1..int (length requests)]" by simp
    have "set (map id_num (addAll g cfg requests [])) = {1..int (length requests)}"
      by (simp only: ids set_upto)
    then have "id_num ` set (addAll g cfg requests []) = {1..int (length requests)}"
      by (simp only: set_map)
    then show ?thesis using ids by simp
  qed
  have one: "\<exists>e. saved (addExpense g cfg now amt descr cat expenses) = Some (expenses @ [e])
         \<and> id_num e = (if expenses = [] then 1 else id_num (last expenses) + 1)
         \<and> last (printed (addExpense g cfg now amt descr cat expenses)) = ExpenseAdded (id_num e)"
    if s: "saved (addExpense g cfg now amt descr cat expenses) \<noteq> None"
    using addExpense_saved [OF s] by simp
  have ok: "saved (addExpense g cfg now amt descr cat expenses) \<noteq> None"
    if "monthlyBudget cfg \<noteq> Some JsonNull \<and> \<not> (isNaN amt \<or> le_js amt (Fin 0))"
    using that by (simp add: addExpense_accepted)
  show ?thesis
    using dense one ok allAdded_valid [of cfg requests g "[]"] by blast
qed

theorem addExpense_identifiers_witness:
  "allAdded isoMonthOf \<lparr>monthlyBudget = Some (JsonNumber (Fin 45))\<rparr>
     [\<lparr>req_now = midJuly, req_amount = Fin 15, req_description = ''Lunch'', req_category = ''food''\<rparr>,
      \<lparr>req_now = midJuly, req_amount = Fin 25, req_description = ''Groceries'', req_category = ''food''\<rparr>,
      \<lparr>req_now = midJuly, req_amount = Fin 30, req_description = ''Bus pass'', req_category = ''transport''\<rparr>]
     []
   \<and> map id_num
     (addAll isoMonthOf \<lparr>monthlyBudget = Some (JsonNumber (Fin 45))\<rparr>
        [\<lparr>req_now = midJuly, req_amount = Fin 15, req_description = ''Lunch'', req_category = ''food''\<rparr>,
         \<lparr>req_now = midJuly, req_amount = Fin 25, req_description = ''Groceries'', req_category = ''food''\<rparr>,
         \<lparr>req_now = midJuly, req_amount = Fin 30, req_description = ''Bus pass'', req_category = ''transport''\<rparr>]
        []) = [1, 2, 3]
   \<and> (\<exists>e. saved (addExpense isoMonthOf \<lparr>monthlyBudget = Some (JsonNumber (Fin 45))\<rparr> midJuly (Fin 10)
                  ''Dinner'' ''food'' [lunch, groceries]) = Some ([lunch, groceries] @ [e])
          \<and> id_num e = 3)"
proof -
  let ?cfg = "\<lparr>monthlyBudget = Some (JsonNumber (Fin 45))\<rparr>"
  let ?requests =
    "[\<lparr>req_now = midJuly, req_amount = Fin 15, req_description = ''Lunch'', req_category = ''food''\<rparr>,
      \<lparr>req_now = midJuly, req_amount = Fin 25, req_description = ''Groceries'', req_category = ''food''\<rparr>,
      \<lparr>req_now = midJuly, req_amount = Fin 30, req_description = ''Bus pass'', req_category = ''transport''\<rparr>]"
  have h1: "monthlyBudget ?cfg \<noteq> Some JsonNull
            \<and> (\<forall>r \<in> set ?requests. \<not> (isNaN (req_amount r) \<or> le_js (req_amount r) (Fin 0)))"
    by (simp add: le_js_def)
  have h2: "monthlyBudget ?cfg \<noteq> Some JsonNull \<and> \<not> (isNaN (Fin 10) \<or> le_js (Fin 10) (Fin 0))"
    by (simp add: le_js_def)
  note t = addExpense_identifiers [of isoMonthOf ?cfg ?requests midJuly "Fin 10" "''Dinner''"
      "''food''" "[lunch, groceries]"]
  have all: "allAdded isoMonthOf ?cfg ?requests []"
    using t h1 by blast
  have "map id_num (addAll isoMonthOf ?cfg ?requests []) = [1..int (length ?requests)]"
    using t all by blast
  moreover have "[1..int (length ?requests)] = [1, 2, 3]"
    by (simp add: upto.simps)
  moreover have "\<exists>e. saved (addExpense isoMonthOf ?cfg midJuly (Fin 10)
                  ''Dinner'' ''food'' [lunch, groceries]) = Some ([lunch, groceries] @ [e])
          \<and> id_num e = (if [lunch, groceries] = [] then 1 else id_num (last [lunch, groceries]) + 1)"
    using t h2 by blast
  ultimately show ?thesis using all by (simp add: groceries_def)
qed

text \<open>
  C4. The amount check of \<^verbatim>\<open>addExpense\<close> is \<^verbatim>\<open>isNaN(amount) || amount <= 0\<close>. \<open>Infinity\<close> is
  not a finite number, yet it passes the check: the line of a refused amount is not
  printed. Unless the stored budget is \<^verbatim>\<open>null\<close>, the record is appended with the amount
  \<open>Infinity\<close> and saved, and the success line is printed; under a budget that is \<^verbatim>\<open>null\<close>
  the same happens when the total is not greater than 0, and else the run ends with the
  \<^verbatim>\<open>TypeError\<close> of the warning line.
\<close>

theorem addExpense_accepts_Infinity:
  "(monthlyBudget cfg \<noteq> Some JsonNull \<longrightarrow>
      saved (addExpense g cfg now PInf descr cat expenses) =
        Some (expenses @
          [\<lparr>id_num = (if expenses = [] then 1 else id_num (last expenses) + 1),
            category = cat, date = toISODate now, amount = PInf, description = descr\<rparr>])
      \<and> last (printed (addExpense g cfg now PInf descr cat expenses)) =
          ExpenseAdded (if expenses = [] then 1 else id_num (last expenses) + 1))
   \<and> (monthlyBudget cfg = Some JsonNull \<longrightarrow>
      addExpense g cfg now PInf descr cat expenses =
        (if gt_js (plus_js (computeExpenses g (MonthNumber (getMonth now + 1)) expenses) PInf) (Fin 0)
         then \<lparr>printed = [UncaughtTypeError], saved = None\<rparr>
         else \<lparr>printed = [ExpenseAdded (if expenses = [] then 1 else id_num (last expenses) + 1)],
               saved = Some (expenses @
                 [\<lparr>id_num = (if expenses = [] then 1 else id_num (last expenses) + 1),
                   category = cat, date = toISODate now, amount = PInf, description = descr\<rparr>])\<rparr>))
   \<and> InvalidAmount \<notin> set (printed (addExpense g cfg now PInf descr cat expenses))"
proof -
  have valid: "\<not> (isNaN PInf \<or> le_js PInf (Fin 0))" by (simp add: le_js_def)
  have "InvalidAmount \<notin> set (printed (addExpense g cfg now PInf descr cat expenses))"
  proof (cases "monthlyBudget cfg = Some JsonNull")
    case True
    then show ?thesis by (simp add: addExpense_null_budget [OF valid True])
  next
    case False
    then show ?thesis
      by (simp add: addExpense_accepted [OF valid False] split: option.splits jsonValue.splits)
  qed
  moreover have "saved (addExpense g cfg now PInf descr cat expenses) =
        Some (expenses @
          [\<lparr>id_num = (if expenses = [] then 1 else id_num (last expenses) + 1),
            category = cat, date = toISODate now, amount = PInf, description = descr\<rparr>])
      \<and> last (printed (addExpense g cfg now PInf descr cat expenses)) =
          ExpenseAdded (if expenses = [] then 1 else id_num (last expenses) + 1)"
    if "monthlyBudget cfg \<noteq> Some JsonNull"
    by (simp add: addExpense_accepted [OF valid that] split: option.splits jsonValue.splits)
  moreover note addExpense_null_budget [OF valid, of cfg g now descr cat expenses]
  ultimately show ?thesis by blast
qed

lemma scenario_fields:
  "id_num lunch = 1" "id_num groceries = 2" "id_num busPass = 3"
  "toISODate midJuly = ''2025-07-15''" "getMonth midJuly = 6"
  by (simp_all add: lunch_def groceries_def busPass_def midJuly_def)

lemmas isoMonthOf_eval = isoMonthOf_def localMonthOf_def calendarMonth_def readNat_def
  digitValue_def daysInMonth_def

theorem addExpense_accepts_Infinity_witness:
  "saved (addExpense isoMonthOf \<lparr>monthlyBudget = Some (JsonNumber (Fin 45))\<rparr> midJuly PInf ''Yacht''
            ''other'' [lunch, groceries]) =
     Some [lunch, groceries,
           \<lparr>id_num = 3, category = ''other'', date = ''2025-07-15'', amount = PInf,
             description = ''Yacht''\<rparr>]
   \<and> last (printed (addExpense isoMonthOf \<lparr>monthlyBudget = Some (JsonNumber (Fin 45))\<rparr> midJuly PInf
                     ''Yacht'' ''other'' [lunch, groceries])) = ExpenseAdded 3
   \<and> InvalidAmount \<notin> set (printed (addExpense isoMonthOf \<lparr>monthlyBudget = Some (JsonNumber (Fin 45))\<rparr>
                                      midJuly PInf ''Yacht'' ''other'' [lunch, groceries]))
   \<and> addExpense isoMonthOf \<lparr>monthlyBudget = Some JsonNull\<rparr> midJuly PInf ''Yacht'' ''other''
       [lunch, groceries] = \<lparr>printed = [UncaughtTypeError], saved = None\<rparr>"
proof -
  have h: "monthlyBudget \<lparr>monthlyBudget = Some (JsonNumber (Fin 45))\<rparr> \<noteq> Some JsonNull" by simp
  note t = addExpense_accepts_Infinity [of "\<lparr>monthlyBudget = Some (JsonNumber (Fin 45))\<rparr>"
      isoMonthOf midJuly "''Yacht''" "''other''" "[lunch, groceries]"]
  have "saved (addExpense isoMonthOf \<lparr>monthlyBudget = Some (JsonNumber (Fin 45))\<rparr> midJuly PInf ''Yacht''
            ''other'' [lunch, groceries]) =
        Some ([lunch, groceries] @
          [\<lparr>id_num = (if [lunch, groceries] = [] then 1 else id_num (last [lunch, groceries]) + 1),
            category = ''other'', date = toISODate midJuly, amount = PInf,
            description = ''Yacht''\<rparr>])
      \<and> last (printed (addExpense isoMonthOf \<lparr>monthlyBudget = Some (JsonNumber (Fin 45))\<rparr> midJuly PInf
                     ''Yacht'' ''other'' [lunch, groceries])) =
          ExpenseAdded (if [lunch, groceries] = [] then 1 else id_num (last [lunch, groceries]) + 1)"
    using t h by blast
  moreover have "InvalidAmount \<notin> set (printed (addExpense isoMonthOf
        \<lparr>monthlyBudget = Some (JsonNumber (Fin 45))\<rparr> midJuly PInf ''Yacht'' ''other'' [lunch, groceries]))"
    using t by blast
  moreover have "addExpense isoMonthOf \<lparr>monthlyBudget = Some JsonNull\<rparr> midJuly PInf ''Yacht'' ''other''
       [lunch, groceries] = \<lparr>printed = [UncaughtTypeError], saved = None\<rparr>"
  proof -
    have n: "monthlyBudget \<lparr>monthlyBudget = Some JsonNull\<rparr> = Some JsonNull" by simp
    have july: "computeExpenses isoMonthOf (MonthNumber (getMonth midJuly + 1)) [lunch, groceries] = Fin 40"
      by (simp add: computeExpenses_fold lunch_def groceries_def midJuly_def isoMonthOf_eval
          rnd_numeral)
    note u = addExpense_accepts_Infinity [of "\<lparr>monthlyBudget = Some JsonNull\<rparr>"
      isoMonthOf midJuly "''Yacht''" "''other''" "[lunch, groceries]"]
    have "addExpense isoMonthOf \<lparr>monthlyBudget = Some JsonNull\<rparr> midJuly PInf ''Yacht'' ''other''
            [lunch, groceries] =
          (if gt_js (plus_js (computeExpenses isoMonthOf (MonthNumber (getMonth midJuly + 1))
                                [lunch, groceries]) PInf) (Fin 0)
           then \<lparr>printed = [UncaughtTypeError], saved = None\<rparr>
           else \<lparr>printed = [ExpenseAdded (if [lunch, groceries] = [] then 1
                                            else id_num (last [lunch, groceries]) + 1)],
                 saved = Some ([lunch, groceries] @
                   [\<lparr>id_num = (if [lunch, groceries] = [] then 1
                                else id_num (last [lunch, groceries]) + 1),
                     category = ''other'', date = toISODate midJuly, amount = PInf,
                     description = ''Yacht''\<rparr>])\<rparr>)"
      using u n by blast
    then show ?thesis by (simp add: july gt_js_def)
  qed
  ultimately show ?thesis by (simp add: scenario_fields)
qed

text \<open>The amounts the check does refuse: \<open>NaN\<close>, minus infinity, zero and the negative
  numbers. For these nothing is appended and nothing is saved.\<close>

lemma addExpense_refuses_iff:
  "(addExpense g cfg now amt descr cat expenses = \<lparr>printed = [InvalidAmount], saved = None\<rparr>)
   = (amt = NaN \<or> amt = NInf \<or> (\<exists>v. amt = Fin v \<and> v \<le> 0))"
proof (cases "isNaN amt \<or> le_js amt (Fin 0)")
  case True
  then have "amt = NaN \<or> amt = NInf \<or> (\<exists>v. amt = Fin v \<and> v \<le> 0)"
    by (cases amt) (simp_all add: le_js_def)
  then show ?thesis using addExpense_rejected [OF True] by simp
next
  case False
  then have no: "\<not> (amt = NaN \<or> amt = NInf \<or> (\<exists>v. amt = Fin v \<and> v \<le> 0))"
    by (cases amt) (simp_all add: le_js_def)
  have "addExpense g cfg now amt descr cat expenses \<noteq> \<lparr>printed = [InvalidAmount], saved = None\<rparr>"
  proof (cases "monthlyBudget cfg = Some JsonNull")
    case True
    then show ?thesis by (simp add: addExpense_null_budget [OF False True])
  next
    case no_null: False
    then show ?thesis by (simp add: addExpense_accepted [OF False no_null])
  qed
  then show ?thesis using no by simp
qed

text \<open>
  C5 as the code has it. \<^verbatim>\<open>addExpense\<close> never looks at the category: whenever it saves the
  ledger, the record it appends has the category it was given, whatever it is, and it
  saves the ledger for every amount that passes its check when the stored budget is not
  \<^verbatim>\<open>null\<close>. The category is checked by the caller alone: the case \<^verbatim>\<open>'add'\<close> of \<^verbatim>\<open>main\<close> compares
  its lower-case form with the five names, and for any other category prints the list of
  valid ones and returns without calling \<^verbatim>\<open>addExpense\<close>.
\<close>

theorem category_checked_by_caller_only:
  "(\<not> (isNaN amt \<or> le_js amt (Fin 0)) \<and> monthlyBudget cfg \<noteq> Some JsonNull \<longrightarrow>
      saved (addExpense g cfg now amt descr cat expenses) =
        Some (expenses @
          [\<lparr>id_num = (if expenses = [] then 1 else id_num (last expenses) + 1),
            category = cat, date = toISODate now, amount = amt, description = descr\<rparr>]))
   \<and> (saved (addExpense g cfg now amt descr cat expenses) \<noteq> None \<longrightarrow>
      saved (addExpense g cfg now amt descr cat expenses) =
        Some (expenses @
          [\<lparr>id_num = (if expenses = [] then 1 else id_num (last expenses) + 1),
            category = cat, date = toISODate now, amount = amt, description = descr\<rparr>]))
   \<and> (opt_category options = Some cat \<and> \<not> isValidCategory cat \<longrightarrow>
      main_add g cfg now options expenses = \<lparr>printed = [InvalidCategory], saved = None\<rparr>)"
proof (intro conjI impI)
  assume "\<not> (isNaN amt \<or> le_js amt (Fin 0)) \<and> monthlyBudget cfg \<noteq> Some JsonNull"
  then show "saved (addExpense g cfg now amt descr cat expenses) =
        Some (expenses @
          [\<lparr>id_num = (if expenses = [] then 1 else id_num (last expenses) + 1),
            category = cat, date = toISODate now, amount = amt, description = descr\<rparr>])"
    by (simp add: addExpense_accepted)
next
  assume "saved (addExpense g cfg now amt descr cat expenses) \<noteq> None"
  then show "saved (addExpense g cfg now amt descr cat expenses) =
        Some (expenses @
          [\<lparr>id_num = (if expenses = [] then 1 else id_num (last expenses) + 1),
            category = cat, date = toISODate now, amount = amt, description = descr\<rparr>])"
    by (rule addExpense_saved(1))
next
  assume "opt_category options = Some cat \<and> \<not> isValidCategory cat"
  then show "main_add g cfg now options expenses = \<lparr>printed = [InvalidCategory], saved = None\<rparr>"
    by (simp add: main_add_def)
qed

lemma not_valid_bitcoin: "\<not> isValidCategory ''bitcoin''"
  by (simp add: isValidCategory_def toLowerCase_def)

theorem category_checked_by_caller_only_witness:
  "saved (addExpense isoMonthOf \<lparr>monthlyBudget = Some (JsonNumber (Fin 45))\<rparr> midJuly (Fin 5) ''Coins''
            ''bitcoin'' [lunch]) =
     Some [lunch, \<lparr>id_num = 2, category = ''bitcoin'', date = ''2025-07-15'', amount = Fin 5,
                    description = ''Coins''\<rparr>]
   \<and> main_add isoMonthOf \<lparr>monthlyBudget = Some (JsonNumber (Fin 45))\<rparr> midJuly
        \<lparr>opt_amount = Some (Fin 5), opt_description = Some ''Coins'',
          opt_category = Some ''bitcoin''\<rparr> [lunch] =
      \<lparr>printed = [InvalidCategory], saved = None\<rparr>"
proof -
  let ?cfg = "\<lparr>monthlyBudget = Some (JsonNumber (Fin 45))\<rparr>"
  have h1: "\<not> (isNaN (Fin 5) \<or> le_js (Fin 5) (Fin 0)) \<and> monthlyBudget ?cfg \<noteq> Some JsonNull"
    by (simp add: le_js_def)
  have h2: "opt_category \<lparr>opt_amount = Some (Fin 5), opt_description = Some ''Coins'',
              opt_category = Some ''bitcoin''\<rparr> = Some ''bitcoin'' \<and> \<not> isValidCategory ''bitcoin''"
    by (simp add: not_valid_bitcoin)
  note t = category_checked_by_caller_only [of "Fin 5" ?cfg isoMonthOf
      midJuly "''Coins''" "''bitcoin''" "[lunch]"
      "\<lparr>opt_amount = Some (Fin 5), opt_description = Some ''Coins'', opt_category = Some ''bitcoin''\<rparr>"]
  have "saved (addExpense isoMonthOf ?cfg midJuly (Fin 5) ''Coins'' ''bitcoin'' [lunch]) =
        Some ([lunch] @
          [\<lparr>id_num = (if [lunch] = [] then 1 else id_num (last [lunch]) + 1),
            category = ''bitcoin'', date = toISODate midJuly, amount = Fin 5,
            description = ''Coins''\<rparr>])"
    using t h1 by blast
  moreover have "main_add isoMonthOf ?cfg midJuly
        \<lparr>opt_amount = Some (Fin 5), opt_description = Some ''Coins'',
          opt_category = Some ''bitcoin''\<rparr> [lunch] =
      \<lparr>printed = [InvalidCategory], saved = None\<rparr>"
    using t h2 by blast
  ultimately show ?thesis by (simp add: lunch_def midJuly_def)
qed

theorem addExpense_unknown_category_counterexample:
  "\<not> isValidCategory ''bitcoin''
   \<and> addExpense isoMonthOf \<lparr>monthlyBudget = Some (JsonNumber (Fin 45))\<rparr> midJuly (Fin 5) ''Coins''
       ''bitcoin'' [] =
       \<lparr>printed = [ExpenseAdded 1],
        saved = Some [\<lparr>id_num = 1, category = ''bitcoin'', date = ''2025-07-15'', amount = Fin 5,
                        description = ''Coins''\<rparr>]\<rparr>"
  by (simp add: not_valid_bitcoin addExpense_def computeExpenses_fold budgetNumber_def le_js_def
      gt_js_def midJuly_def rnd_numeral)

text \<open>
  What \<^verbatim>\<open>addExpense\<close> does under a budget that is a number, with an amount that passes the
  check: it sums, from 0 and in stored order, the amounts of the records whose date the
  host reads in the month \<^verbatim>\<open>date.getMonth()\<close> of the current date, adds the new amount, and
  prints the warning exactly when that total is greater than the budget; with or without
  the warning the record is appended with the next identifier and saved.
\<close>

lemma addExpense_under_budget:
  assumes "\<not> (isNaN amt \<or> le_js amt (Fin 0))" and "monthlyBudget cfg = Some (JsonNumber b)"
  shows "addExpense g cfg now amt descr cat expenses =
           \<lparr>printed =
              (if gt_js (plus_js (foldl plus_js (Fin 0) (map amount
                           (filter (\<lambda>e. g (date e) = Some (getMonth now)) expenses))) amt) b
               then [BudgetWarning b] else [])
              @ [ExpenseAdded (if expenses = [] then 1 else id_num (last expenses) + 1)],
            saved = Some (expenses @
              [\<lparr>id_num = (if expenses = [] then 1 else id_num (last expenses) + 1),
                category = cat, date = toISODate now, amount = amt, description = descr\<rparr>])\<rparr>"
proof -
  have no_null: "monthlyBudget cfg \<noteq> Some JsonNull" using assms(2) by simp
  show ?thesis
    by (simp add: addExpense_accepted [OF assms(1) no_null] assms(2) computeExpenses_fold)
qed

text \<open>The scenario of the specification: two records of July that total 40, a budget of
  45, and an addition of 10 in July.\<close>

lemma addExpense_scenario:
  "addExpense isoMonthOf \<lparr>monthlyBudget = Some (JsonNumber (Fin 45))\<rparr> midJuly (Fin 10) ''Dinner''
     ''food'' [lunch, groceries] =
   \<lparr>printed = [BudgetWarning (Fin 45), ExpenseAdded 3],
    saved = Some [lunch, groceries,
                  \<lparr>id_num = 3, category = ''food'', date = ''2025-07-15'', amount = Fin 10,
                    description = ''Dinner''\<rparr>]\<rparr>"
proof -
  have h: "\<not> (isNaN (Fin 10) \<or> le_js (Fin 10) (Fin 0))" by (simp add: le_js_def)
  have sum: "foldl plus_js (Fin 0) (map amount
               (filter (\<lambda>e. isoMonthOf (date e) = Some (getMonth midJuly)) [lunch, groceries])) = Fin 40"
    by (simp add: lunch_def groceries_def midJuly_def isoMonthOf_eval rnd_numeral)
  show ?thesis
    using addExpense_under_budget [OF h, of "\<lparr>monthlyBudget = Some (JsonNumber (Fin 45))\<rparr>" "Fin 45"
        isoMonthOf midJuly "''Dinner''" "''food''" "[lunch, groceries]", unfolded sum]
    by (simp add: gt_js_def rnd_numeral scenario_fields)
qed

text \<open>
  C6. Two runs in which the budget check is not the one that C6 states. First,
  \<^verbatim>\<open>setBudget(Infinity)\<close> passes the check of \<^verbatim>\<open>setBudget\<close> and leaves \<^verbatim>\<open>null\<close> in the
  configuration file. Under that budget the addition of 10 to the two records of July has
  a total greater than \<^verbatim>\<open>null\<close>, which compares as 0; building the line of the warning
  throws, and the run ends with nothing appended and nothing saved. Second, on a host five
  hours behind UTC, in the first hours of the 1st of August in UTC, the new expense is
  dated 2025-08-01, a month in which the ledger has no expense, so that the total that C6
  describes is 10, under the budget of 45; the program sums the month of the local time,
  July, finds 50, and prints the warning.
\<close>

theorem addExpense_budget_check_failures:
  "setBudget PInf \<lparr>monthlyBudget = Some (JsonNumber (Fin 0))\<rparr> =
     ([BudgetSet PInf], Some \<lparr>monthlyBudget = Some JsonNull\<rparr>)
   \<and> addExpense isoMonthOf \<lparr>monthlyBudget = Some JsonNull\<rparr> midJuly (Fin 10) ''Dinner'' ''food''
       [lunch, groceries] = \<lparr>printed = [UncaughtTypeError], saved = None\<rparr>
   \<and> ledgerAfter [lunch, groceries]
       (addExpense isoMonthOf \<lparr>monthlyBudget = Some JsonNull\<rparr> midJuly (Fin 10) ''Dinner'' ''food''
          [lunch, groceries]) = [lunch, groceries]
   \<and> calendarMonth (toISODate firstOfAugustUTC) = Some 8
   \<and> calendarMonth (date lunch) = Some 7
   \<and> calendarMonth (date groceries) = Some 7
   \<and> addExpense (localMonthOf (- 300)) \<lparr>monthlyBudget = Some (JsonNumber (Fin 45))\<rparr> firstOfAugustUTC
       (Fin 10) ''Dinner'' ''food'' [lunch, groceries] =
       \<lparr>printed = [BudgetWarning (Fin 45), ExpenseAdded 3],
        saved = Some [lunch, groceries,
                      \<lparr>id_num = 3, category = ''food'', date = ''2025-08-01'', amount = Fin 10,
                        description = ''Dinner''\<rparr>]\<rparr>"
proof -
  have h: "\<not> (isNaN (Fin 10) \<or> le_js (Fin 10) (Fin 0))" by (simp add: le_js_def)
  have budget: "setBudget PInf \<lparr>monthlyBudget = Some (JsonNumber (Fin 0))\<rparr> =
                  ([BudgetSet PInf], Some \<lparr>monthlyBudget = Some JsonNull\<rparr>)"
    by (simp add: setBudget_def jsonOfNumber_def le_js_def)
  have july: "computeExpenses isoMonthOf (MonthNumber (getMonth midJuly + 1)) [lunch, groceries] = Fin 40"
    by (simp add: computeExpenses_fold lunch_def groceries_def midJuly_def isoMonthOf_eval
        rnd_numeral)
  have thrown: "addExpense isoMonthOf \<lparr>monthlyBudget = Some JsonNull\<rparr> midJuly (Fin 10) ''Dinner''
                  ''food'' [lunch, groceries] = \<lparr>printed = [UncaughtTypeError], saved = None\<rparr>"
    using addExpense_null_budget [OF h, of "\<lparr>monthlyBudget = Some JsonNull\<rparr>" isoMonthOf midJuly
        "''Dinner''" "''food''" "[lunch, groceries]"]
    by (simp add: july gt_js_def rnd_numeral)
  have months: "calendarMonth (toISODate firstOfAugustUTC) = Some 8"
    "calendarMonth (date lunch) = Some 7" "calendarMonth (date groceries) = Some 7"
    by (simp_all add: firstOfAugustUTC_def lunch_def groceries_def isoMonthOf_eval)
  have sum: "foldl plus_js (Fin 0) (map amount
               (filter (\<lambda>e. localMonthOf (- 300) (date e) = Some (getMonth firstOfAugustUTC))
                  [lunch, groceries])) = Fin 40"
    by (simp add: lunch_def groceries_def firstOfAugustUTC_def isoMonthOf_eval rnd_numeral)
  have west: "addExpense (localMonthOf (- 300)) \<lparr>monthlyBudget = Some (JsonNumber (Fin 45))\<rparr>
                firstOfAugustUTC (Fin 10) ''Dinner'' ''food'' [lunch, groceries] =
       \<lparr>printed = [BudgetWarning (Fin 45), ExpenseAdded 3],
        saved = Some [lunch, groceries,
                      \<lparr>id_num = 3, category = ''food'', date = ''2025-08-01'', amount = Fin 10,
                        description = ''Dinner''\<rparr>]\<rparr>"
    using addExpense_under_budget [OF h, of "\<lparr>monthlyBudget = Some (JsonNumber (Fin 45))\<rparr>" "Fin 45"
        "localMonthOf (- 300)" firstOfAugustUTC "''Dinner''" "''food''" "[lunch, groceries]",
        unfolded sum]
    by (simp add: gt_js_def rnd_numeral scenario_fields firstOfAugustUTC_def)
  show ?thesis
    using budget thrown months west by (simp add: ledgerAfter_def)
qed

text \<open>
  C10. When the configuration object has no field \<^verbatim>\<open>monthlyBudget\<close>, \<^verbatim>\<open>addExpense\<close> prints no
  budget warning, whatever the amount and the ledger: it prints the line of a refused
  amount, or the success line alone.
\<close>

theorem addExpense_without_budget_field:
  assumes "monthlyBudget cfg = None"
  shows "(\<forall>b. BudgetWarning b \<notin> set (printed (addExpense g cfg now amt descr cat expenses)))
         \<and> printed (addExpense g cfg now amt descr cat expenses) =
             (if isNaN amt \<or> le_js amt (Fin 0) then [InvalidAmount]
              else [ExpenseAdded (if expenses = [] then 1 else id_num (last expenses) + 1)])"
proof (cases "isNaN amt \<or> le_js amt (Fin 0)")
  case True
  then show ?thesis by (simp add: addExpense_rejected)
next
  case False
  have no_null: "monthlyBudget cfg \<noteq> Some JsonNull" using assms by simp
  show ?thesis using False by (simp add: addExpense_accepted [OF False no_null] assms)
qed

theorem addExpense_without_budget_field_witness:
  "printed (addExpense isoMonthOf \<lparr>monthlyBudget = None\<rparr> midJuly (Fin 1000) ''Laptop'' ''other''
              [lunch, groceries]) = [ExpenseAdded 3]
   \<and> printed (addExpense isoMonthOf \<lparr>monthlyBudget = Some (JsonNumber (Fin 0))\<rparr> midJuly (Fin 1000)
                ''Laptop'' ''other'' [lunch, groceries]) = [BudgetWarning (Fin 0), ExpenseAdded 3]"
proof -
  have h: "monthlyBudget \<lparr>monthlyBudget = None\<rparr> = None" by simp
  have "printed (addExpense isoMonthOf \<lparr>monthlyBudget = None\<rparr> midJuly (Fin 1000) ''Laptop'' ''other''
              [lunch, groceries]) = [ExpenseAdded 3]"
    using addExpense_without_budget_field [OF h, of isoMonthOf midJuly "Fin 1000" "''Laptop''"
        "''other''" "[lunch, groceries]"]
    by (simp add: le_js_def scenario_fields)
  moreover have "printed (addExpense isoMonthOf \<lparr>monthlyBudget = Some (JsonNumber (Fin 0))\<rparr> midJuly
                (Fin 1000) ''Laptop'' ''other'' [lunch, groceries]) = [BudgetWarning (Fin 0), ExpenseAdded 3]"
    by (simp add: addExpense_def computeExpenses_fold budgetNumber_def le_js_def gt_js_def
        midJuly_def lunch_def groceries_def isoMonthOf_eval rnd_numeral)
  ultimately show ?thesis by simp
qed

section \<open>Totals\<close>

text \<open>
  \<^verbatim>\<open>summaryExpenses\<close> on a month that is a number: for the number 0 it prints the sum, from
  0 and in stored order, of the amounts of all records, whatever their dates (the ledger
  may be empty); for an integer from 1 to 11 it prints \<^verbatim>\<open>computeExpenses\<close> of that month;
  for every other integer, 12 and the negative ones among them, it prints the line asking
  for a valid month, and no total. The command line with no option \<^verbatim>\<open>--month\<close> gives the
  number 0.
\<close>

lemma summaryExpenses_number:
  "summaryExpenses g (MonthNumber 0) expenses =
     [TotalExpenses (foldl plus_js (Fin 0) (map amount expenses))]
   \<and> (1 \<le> month \<and> month \<le> 11 \<longrightarrow>
        summaryExpenses g (MonthNumber month) expenses =
          [TotalForMonth (MonthNumber month) (computeExpenses g (MonthNumber month) expenses)])
   \<and> (month \<noteq> 0 \<and> \<not> (1 \<le> month \<and> month \<le> 11) \<longrightarrow>
        summaryExpenses g (MonthNumber month) expenses = [InvalidMonth])"
  by (auto simp: summaryExpenses_def foldl_amounts gt_js_def)

lemma main_summary_no_option:
  "main_summary g None expenses = [TotalExpenses (foldl plus_js (Fin 0) (map amount expenses))]"
  by (simp add: main_summary_def summaryExpenses_def foldl_amounts)

text \<open>The texts of the scenarios, read as numbers.\<close>

lemma rnd_zero: "rnd 0 = Fin 0"
  by (simp add: rnd_def)

lemma rnd_seven_and_half: "rnd (15 / 2) = Fin (15 / 2)"
  using rnd_near [of 2 "15 / 2" 8444249301319680] by simp

lemmas text_number_eval = stringToNumber_def parseIntText_def trim_def isWhiteSpace_def
  prefixRadix_def unsignedDecimal_def isDigit_def radixDigit_def digitValue_def readNat_def Let_def

lemma month_texts:
  "stringToNumber ''7.5'' = Fin (15 / 2)" "parseIntText ''7.5'' = Fin 7"
  "stringToNumber ''0'' = Fin 0" "parseIntText ''0'' = Fin 0"
  "stringToNumber ''7'' = Fin 7" "parseIntText ''7'' = Fin 7"
  "stringToNumber ''12'' = Fin 12" "stringToNumber ''-3'' = Fin (- 3)"
  using rnd_int [of "- 3"]
  by (simp_all add: text_number_eval rnd_seven_and_half rnd_numeral rnd_zero)

lemma scenario_totals:
  "computeExpenses isoMonthOf (MonthNumber 7) [lunch, groceries, busPass] = Fin 40"
  "computeExpenses isoMonthOf (MonthText ''7.5'') [lunch, groceries, busPass] = Fin 40"
  "computeExpenses isoMonthOf (MonthText ''7'') [lunch, groceries, busPass] = Fin 40"
  "computeExpenses isoMonthOf MonthTrue [lunch, groceries, busPass] = Fin 0"
  by (simp_all add: computeExpenses_def month_texts lunch_def groceries_def busPass_def
      isoMonthOf_eval rnd_numeral split: option.splits)

text \<open>On the command line, no option is the month 0, \<^verbatim>\<open>--month 7\<close> is July, and
  \<^verbatim>\<open>--month 12\<close> and \<^verbatim>\<open>--month -3\<close> are refused.\<close>

lemma main_summary_scenarios:
  "main_summary isoMonthOf None [lunch, groceries, busPass] = [TotalExpenses (Fin 70)]"
  "main_summary isoMonthOf None [] = [TotalExpenses (Fin 0)]"
  "main_summary isoMonthOf (Some (OptionText [])) [lunch, groceries, busPass] = [TotalExpenses (Fin 70)]"
  by (simp_all add: main_summary_def summaryExpenses_def lunch_def groceries_def busPass_def
      rnd_numeral)

lemma main_summary_month_scenarios:
  "main_summary isoMonthOf (Some (OptionText ''7'')) [lunch, groceries, busPass] =
     [TotalForMonth (MonthText ''7'') (Fin 40)]"
  "main_summary isoMonthOf (Some (OptionText ''12'')) [lunch, groceries, busPass] = [InvalidMonth]"
  "main_summary isoMonthOf (Some (OptionText ''-3'')) [lunch, groceries, busPass] = [InvalidMonth]"
  by (simp_all add: main_summary_def summaryExpenses_def scenario_totals month_texts gt_js_def)

text \<open>
  C3. On three command lines the summary is not the one that C3 states.
  \<^verbatim>\<open>summary --month 7.5\<close>: the text \<^verbatim>\<open>7.5\<close> is not an integer month, yet it compares as a
  number between 0 and 12, \<^verbatim>\<open>parseInt\<close> reads it as 7, and the total of July is printed as
  the total of the month 7.5.
  \<^verbatim>\<open>summary --month\<close>, with no value: the month is \<^verbatim>\<open>true\<close>, which compares as 1, and
  \<^verbatim>\<open>parseInt\<close> of it is \<open>NaN\<close>, the month of no record: a total of 0 is printed.
  \<^verbatim>\<open>summary --month 0\<close>: the text \<^verbatim>\<open>0\<close> is not the number 0 for \<^verbatim>\<open>===\<close>, and it is not
  greater than 0: the line asking for a valid month is printed in place of the sum of
  all records.
\<close>

theorem main_summary_month_failures:
  "main_summary isoMonthOf (Some (OptionText ''7.5'')) [lunch, groceries, busPass] =
     [TotalForMonth (MonthText ''7.5'') (Fin 40)]
   \<and> main_summary isoMonthOf (Some OptionFlag) [lunch, groceries, busPass] =
       [TotalForMonth MonthTrue (Fin 0)]
   \<and> main_summary isoMonthOf (Some (OptionText ''0'')) [lunch, groceries, busPass] = [InvalidMonth]"
  by (simp add: main_summary_def summaryExpenses_def scenario_totals month_texts gt_js_def)

text \<open>
  C7 as the code has it. \<^verbatim>\<open>computeExpenses\<close> on \<open>A @ B\<close> goes on from its total on \<open>A\<close>, adding
  the amounts of the records of \<open>B\<close> of that month one by one, each sum rounded to binary64.
  This need not be the total on \<open>A\<close> plus the total on \<open>B\<close>, where the amounts of \<open>B\<close> are
  first added up from 0. The total is 0 when the host reads no record's date in the month
  (\<^verbatim>\<open>new Date(date).getMonth() + 1\<close>); on a host at or ahead of UTC, and a ledger whose dates
  are written \<^verbatim>\<open>YYYY-MM-DD\<close>, that is when no record's stored date has the calendar month.
\<close>

theorem computeExpenses_append:
  "computeExpenses g (MonthNumber month) (A @ B) =
     foldl plus_js (computeExpenses g (MonthNumber month) A)
       (map amount (filter (\<lambda>e. g (date e) = Some (month - 1)) B))
   \<and> ((\<forall>e \<in> set expenses. g (date e) \<noteq> Some (month - 1)) \<longrightarrow>
        computeExpenses g (MonthNumber month) expenses = Fin 0)
   \<and> (0 \<le> utcOffset
      \<and> (\<forall>e \<in> set expenses. isoDateFields (date e) \<noteq> None \<and> calendarMonth (date e) \<noteq> Some month) \<longrightarrow>
        computeExpenses (localMonthOf utcOffset) (MonthNumber month) expenses = Fin 0)"
proof (intro conjI impI)
  show "computeExpenses g (MonthNumber month) (A @ B) =
     foldl plus_js (computeExpenses g (MonthNumber month) A)
       (map amount (filter (\<lambda>e. g (date e) = Some (month - 1)) B))"
    by (simp add: computeExpenses_fold)
next
  assume "\<forall>e \<in> set expenses. g (date e) \<noteq> Some (month - 1)"
  then have "filter (\<lambda>e. g (date e) = Some (month - 1)) expenses = []"
    by (simp add: filter_empty_conv)
  then show "computeExpenses g (MonthNumber month) expenses = Fin 0"
    by (simp add: computeExpenses_fold)
next
  assume h: "0 \<le> utcOffset
      \<and> (\<forall>e \<in> set expenses. isoDateFields (date e) \<noteq> None \<and> calendarMonth (date e) \<noteq> Some month)"
  have "localMonthOf utcOffset (date e) \<noteq> Some (month - 1)" if "e \<in> set expenses" for e
    using h that by (auto simp: localMonthOf_def calendarMonth_def split: option.splits)
  then have "filter (\<lambda>e. localMonthOf utcOffset (date e) = Some (month - 1)) expenses = []"
    by (simp add: filter_empty_conv)
  then show "computeExpenses (localMonthOf utcOffset) (MonthNumber month) expenses = Fin 0"
    by (simp add: computeExpenses_fold)
qed

theorem computeExpenses_append_witness:
  "computeExpenses isoMonthOf (MonthNumber 7) ([lunch] @ [groceries, busPass]) = Fin 40
   \<and> computeExpenses isoMonthOf (MonthNumber 7) [lunch] = Fin 15
   \<and> computeExpenses isoMonthOf (MonthNumber 9) [lunch, groceries, busPass] = Fin 0
   \<and> computeExpenses (localMonthOf 120) (MonthNumber 9) [lunch, groceries, busPass] = Fin 0"
proof -
  note t = computeExpenses_append [of isoMonthOf 7 "[lunch]" "[groceries, busPass]"]
  have one: "computeExpenses isoMonthOf (MonthNumber 7) [lunch] = Fin 15"
    by (simp add: computeExpenses_fold lunch_def isoMonthOf_eval rnd_numeral)
  have "computeExpenses isoMonthOf (MonthNumber 7) ([lunch] @ [groceries, busPass]) = Fin 40"
    using t by (simp add: one groceries_def busPass_def isoMonthOf_eval rnd_numeral)
  moreover have "\<forall>e \<in> set [lunch, groceries, busPass]. isoMonthOf (date e) \<noteq> Some (9 - 1)"
    by (simp add: lunch_def groceries_def busPass_def isoMonthOf_eval)
  then have "computeExpenses isoMonthOf (MonthNumber 9) [lunch, groceries, busPass] = Fin 0"
    using computeExpenses_append [of isoMonthOf 9 "[]" "[]" "[lunch, groceries, busPass]"] by blast
  moreover have "0 \<le> (120::int) \<and> (\<forall>e \<in> set [lunch, groceries, busPass].
                   isoDateFields (date e) \<noteq> None \<and> calendarMonth (date e) \<noteq> Some 9)"
    by (simp add: lunch_def groceries_def busPass_def isoMonthOf_eval)
  then have "computeExpenses (localMonthOf 120) (MonthNumber 9) [lunch, groceries, busPass] = Fin 0"
    using computeExpenses_append [of isoMonthOf 9 "[]" "[]" "[lunch, groceries, busPass]" 120] by blast
  ultimately show ?thesis using one by simp
qed

lemma rnd_tenth: "rnd (1 / 10) = Fin (3602879701896397 / 36028797018963968)"
  using rnd_near [of "- 4" "1 / 10" 7205759403792794] by simp

lemma rnd_fifth: "rnd (1 / 5) = Fin (3602879701896397 / 18014398509481984)"
  using rnd_near [of "- 3" "1 / 5" 7205759403792794] by simp

lemma rnd_three_tenths: "rnd (3 / 10) = Fin (5404319552844595 / 18014398509481984)"
  using rnd_near [of "- 2" "3 / 10" 5404319552844595] by simp

lemma plus_zero_tenth:
  "plus_js (Fin 0) (Fin (3602879701896397 / 36028797018963968)) =
   Fin (3602879701896397 / 36028797018963968)"
  using rnd_near [of "- 4" "3602879701896397 / 36028797018963968" 7205759403792794] by simp

lemma plus_zero_fifth:
  "plus_js (Fin 0) (Fin (3602879701896397 / 18014398509481984)) =
   Fin (3602879701896397 / 18014398509481984)"
  using rnd_near [of "- 3" "3602879701896397 / 18014398509481984" 7205759403792794] by simp

lemma plus_tenth_fifth:
  "plus_js (Fin (3602879701896397 / 36028797018963968)) (Fin (3602879701896397 / 18014398509481984)) =
   Fin (1351079888211149 / 4503599627370496)"
  using roundTiesToEven_tie [of "(3602879701896397 / 36028797018963968 + 3602879701896397 / 18014398509481984) / 2 powi (- 2 - 52)" 5404319552844595]
    rnd_at [of "- 2" "3602879701896397 / 36028797018963968 + 3602879701896397 / 18014398509481984" 5404319552844596]
  by simp

lemma plus_sum_three_tenths:
  "plus_js (Fin (1351079888211149 / 4503599627370496)) (Fin (5404319552844595 / 18014398509481984)) =
   Fin (1351079888211149 / 2251799813685248)"
  using roundTiesToEven_tie [of "(1351079888211149 / 4503599627370496 + 5404319552844595 / 18014398509481984) / 2 powi (- 1 - 52)" 5404319552844595]
    rnd_at [of "- 1" "1351079888211149 / 4503599627370496 + 5404319552844595 / 18014398509481984" 5404319552844596]
  by simp

lemma plus_fifth_three_tenths:
  "plus_js (Fin (3602879701896397 / 18014398509481984)) (Fin (5404319552844595 / 18014398509481984)) =
   Fin (1 / 2)"
  using rnd_near [of "- 1" "1 / 2" 4503599627370496] by simp

lemma plus_tenth_half:
  "plus_js (Fin (3602879701896397 / 36028797018963968)) (Fin (1 / 2)) =
   Fin (5404319552844595 / 9007199254740992)"
  using rnd_near [of "- 1" "3602879701896397 / 36028797018963968 + 1 / 2" 5404319552844595] by simp

lemmas cents_sums = rnd_tenth rnd_fifth rnd_three_tenths plus_zero_tenth plus_zero_fifth
  plus_tenth_fifth plus_sum_three_tenths plus_fifth_three_tenths plus_tenth_half

text \<open>
  The amounts 0.1, 0.2 and 0.3 of July: the total of the three is not the sum of the total
  of the first and the total of the other two. And on a host five hours behind UTC the
  record dated 2025-08-01, whose calendar month is August, counts in the total of July.
\<close>

theorem computeExpenses_not_additive_counterexample:
  "computeExpenses isoMonthOf (MonthNumber 7) ([gum] @ [pen, stamp]) =
     Fin (1351079888211149 / 2251799813685248)
   \<and> plus_js (computeExpenses isoMonthOf (MonthNumber 7) [gum])
       (computeExpenses isoMonthOf (MonthNumber 7) [pen, stamp]) =
       Fin (5404319552844595 / 9007199254740992)
   \<and> computeExpenses isoMonthOf (MonthNumber 7) ([gum] @ [pen, stamp]) \<noteq>
       plus_js (computeExpenses isoMonthOf (MonthNumber 7) [gum])
         (computeExpenses isoMonthOf (MonthNumber 7) [pen, stamp])
   \<and> calendarMonth (date rent) = Some 8
   \<and> computeExpenses (localMonthOf (- 300)) (MonthNumber 7) [rent] = Fin 30"
proof -
  have whole: "computeExpenses isoMonthOf (MonthNumber 7) ([gum] @ [pen, stamp]) =
               Fin (1351079888211149 / 2251799813685248)"
    by (simp add: computeExpenses_fold gum_def pen_def stamp_def isoMonthOf_eval cents_sums
        del: plus_js.simps(1))
  have left: "computeExpenses isoMonthOf (MonthNumber 7) [gum] =
              Fin (3602879701896397 / 36028797018963968)"
    by (simp add: computeExpenses_fold gum_def isoMonthOf_eval cents_sums del: plus_js.simps(1))
  have right: "computeExpenses isoMonthOf (MonthNumber 7) [pen, stamp] = Fin (1 / 2)"
    by (simp add: computeExpenses_fold pen_def stamp_def isoMonthOf_eval cents_sums
        del: plus_js.simps(1))
  have parts: "plus_js (computeExpenses isoMonthOf (MonthNumber 7) [gum])
                 (computeExpenses isoMonthOf (MonthNumber 7) [pen, stamp]) =
               Fin (5404319552844595 / 9007199254740992)"
    by (simp only: left right plus_tenth_half)
  have west: "calendarMonth (date rent) = Some 8"
    "computeExpenses (localMonthOf (- 300)) (MonthNumber 7) [rent] = Fin 30"
    by (simp_all add: computeExpenses_fold rent_def isoMonthOf_eval rnd_numeral)
  show ?thesis unfolding parts whole using west by simp
qed

section \<open>The export and its reader\<close>






































end
